theory Spec2Isabelle
  imports Complex_Main "HOL-Library.Sublist" "HOL-Library.AList"
begin

section \<open>Docker port configuration: data model\<close>

text \<open>
  The development embeds \<^verbatim>\<open>DOCKER_PORT_CONFIGURATION.py\<close>. Python's unbounded
  integers are \<^typ>\<open>int\<close>, the results of \<^verbatim>\<open>len\<close> are \<^typ>\<open>nat\<close>, strings are
  \<^typ>\<open>string\<close>, and a dictionary with a fixed set of keys is a record whose fields are
  the keys. Several records share field names; a selector is then written with its
  record, as in \<open>PortConfig.port\<close>. Logging and the writing of files are not modelled.
\<close>

subsection \<open>Exceptions and numbers\<close>

text \<open>
  The exceptions that can leave the modelled functions. \<^verbatim>\<open>OSError\<close> carries the reason
  the operating system gave; the other two are not subclasses of \<^verbatim>\<open>OSError\<close>.
\<close>

datatype errno = EADDRINUSE | EACCES | EADDRNOTAVAIL | EMFILE

datatype py_exception = OSError errno | OverflowError | ZeroDivisionError

text \<open>
  A number of the report is a Python \<^verbatim>\<open>int\<close> or a \<^verbatim>\<open>float\<close>; a float is given by
  the real number it denotes.
\<close>

datatype py_number = PyInt int | PyFloat real

subsection \<open>The dictionaries of the scan and of the report\<close>

text \<open>
  An element of \<^verbatim>\<open>self.conflicts\<close>: the dictionary with the keys \<^verbatim>\<open>port\<close>,
  \<^verbatim>\<open>services\<close> and \<^verbatim>\<open>conflict_type\<close> built at lines 195-199.
\<close>

record Conflict =
  port :: int
  services :: "string list"
  conflict_type :: string

text \<open>An element of a list of \<^verbatim>\<open>component_ports\<close> (lines 276-282).\<close>

record PortEntry =
  port :: int
  service :: string
  protocol :: string
  description :: string
  status :: string

text \<open>The dictionary under the key \<^verbatim>\<open>port_mapping_summary\<close> (lines 285-291).\<close>

record Summary =
  total_ports :: nat
  available_ports :: nat
  conflict_ports :: nat
  availability_percentage :: py_number
  total_services :: nat

text \<open>
  The report (lines 284-321). \<^verbatim>\<open>component_ports\<close> is a dictionary filled in the order
  of the registry: an association list. The key \<^verbatim>\<open>service_configurations\<close> is not
  modelled (see the state below).
\<close>

record Report =
  port_mapping_summary :: Summary
  component_ports :: "(string \<times> PortEntry list) list"
  port_conflicts :: "Conflict list"
  port_ranges :: "(string \<times> int \<times> int) list"
  recommendations :: "string list"

subsection \<open>The dataclasses (lines 23-42)\<close>

record PortConfig =
  port :: int
  service :: string
  component :: string
  protocol :: string
  description :: string
  status :: string
  container :: "string option"
  health_check :: "string option"

text \<open>
  The call \<^verbatim>\<open>PortConfig(port, service, component, protocol, description)\<close> with five
  positional arguments: the remaining fields take their declared defaults.
\<close>

definition new_PortConfig :: "int \<Rightarrow> string \<Rightarrow> string \<Rightarrow> string \<Rightarrow> string \<Rightarrow> PortConfig" where
  "new_PortConfig p s c pr d =
     \<lparr>port = p, service = s, component = c, protocol = pr, description = d,
      status = ''available'', container = None, health_check = None\<rparr>"

record ServicePorts =
  service_name :: string
  component :: string
  ports :: "PortConfig list"
  docker_compose :: "string option"
  health_check_url :: "string option"

text \<open>
  The call \<^verbatim>\<open>ServicePorts(service_name, component, ports, docker_compose)\<close> with four
  positional arguments.
\<close>

definition new_ServicePorts :: "string \<Rightarrow> string \<Rightarrow> PortConfig list \<Rightarrow> string \<Rightarrow> ServicePorts" where
  "new_ServicePorts n c ps f =
     \<lparr>service_name = n, component = c, ports = ps, docker_compose = Some f,
      health_check_url = None\<rparr>"

subsection \<open>The manager's state\<close>

text \<open>
  The attributes of \<^verbatim>\<open>DockerPortConfiguration\<close> that the modelled methods read or write
  (\<^verbatim>\<open>base_path\<close> and \<^verbatim>\<open>port_allocations\<close> are used by none of them).
  In the source the lists \<^verbatim>\<open>ports\<close> of the groups in \<^verbatim>\<open>service_ports\<close> hold the
  very objects of \<^verbatim>\<open>port_configs\<close>. The model stores values; the only field that is
  ever assigned is \<^verbatim>\<open>status\<close>, and the modelled functions read it through
  \<^verbatim>\<open>port_configs\<close> alone. The one place of the source that reads it through the groups,
  the key \<^verbatim>\<open>service_configurations\<close> of the report, is left out of the model.
\<close>

record DockerPortConfiguration =
  port_configs :: "PortConfig list"
  service_ports :: "ServicePorts list"
  conflicts :: "Conflict list"
  port_ranges :: "(string \<times> int \<times> int) list"

section \<open>Formatting integers\<close>

text \<open>
  The decimal digits of a natural number, most significant first, and Python's
  \<^verbatim>\<open>str\<close> of an integer, which an f-string applies to \<^verbatim>\<open>{port}\<close> and \<^verbatim>\<open>{i}\<close>.
\<close>

definition digit_char :: "nat \<Rightarrow> char" where
  "digit_char d = ''0123456789'' ! d"

function digits :: "nat \<Rightarrow> string" where
  "digits n = (if n < 10 then [digit_char n] else digits (n div 10) @ [digit_char (n mod 10)])"
  by pat_completeness auto
termination
  by (relation "measure id") auto

declare digits.simps [simp del]

definition str_int :: "int \<Rightarrow> string" where
  "str_int i = (if i < 0 then ''-'' @ digits (nat (- i)) else digits (nat i))"

text \<open>
  The format \<^verbatim>\<open>{i:02d}\<close>: the decimal form, filled with zeros on the left up to two
  characters (a negative number already has two).
\<close>

definition format_02d :: "int \<Rightarrow> string" where
  "format_02d i = (let s = str_int i in replicate (2 - length s) (CHR ''0'') @ s)"

section \<open>The port registry\<close>

subsection \<open>The literal tables (lines 73-152)\<close>

definition iza_os_ports :: "PortConfig list" where
  "iza_os_ports =
     [new_PortConfig 8001 ''iza-memory-core'' ''iza_os'' ''http'' ''Memory Core API'',
      new_PortConfig 8002 ''iza-agent-orchestration'' ''iza_os'' ''http'' ''Agent Orchestration API'',
      new_PortConfig 8003 ''iza-venture-factory'' ''iza_os'' ''http'' ''Venture Factory API'',
      new_PortConfig 8004 ''iza-repository-hub'' ''iza_os'' ''http'' ''Repository Hub API'',
      new_PortConfig 8005 ''iza-vercept-intelligence'' ''iza_os'' ''http'' ''Vercept Intelligence API'',
      new_PortConfig 8006 ''iza-command-center'' ''iza_os'' ''http'' ''Command Center API'',
      new_PortConfig 8007 ''iza-genixbank-financial'' ''iza_os'' ''http'' ''GenixBank Financial API'']"

definition genixbank_ports :: "PortConfig list" where
  "genixbank_ports =
     [new_PortConfig 8101 ''genixbank-banking-api'' ''genixbank'' ''http'' ''Banking API'',
      new_PortConfig 8102 ''genixbank-compliance-api'' ''genixbank'' ''http'' ''Compliance API'',
      new_PortConfig 8103 ''genixbank-equity-api'' ''genixbank'' ''http'' ''Equity API'',
      new_PortConfig 8104 ''genixbank-transaction-api'' ''genixbank'' ''http'' ''Transaction API'',
      new_PortConfig 8105 ''genixbank-payroll-api'' ''genixbank'' ''http'' ''Payroll API'',
      new_PortConfig 8106 ''genixbank-dealmaking-api'' ''genixbank'' ''http'' ''Dealmaking API'',
      new_PortConfig 8107 ''genixbank-dashboard'' ''genixbank'' ''http'' ''Financial Dashboard'',
      new_PortConfig 8108 ''genixbank-reports'' ''genixbank'' ''http'' ''Financial Reports'']"

definition traycer_ports :: "PortConfig list" where
  "traycer_ports =
     [new_PortConfig 8201 ''traycer-design-system'' ''traycer'' ''http'' ''Design System API'',
      new_PortConfig 8202 ''traycer-component-library'' ''traycer'' ''http'' ''Component Library'',
      new_PortConfig 8203 ''traycer-orchestration'' ''traycer'' ''http'' ''Orchestration API'',
      new_PortConfig 8204 ''traycer-frontend-proxy'' ''traycer'' ''http'' ''Frontend Proxy'',
      new_PortConfig 8205 ''traycer-build-system'' ''traycer'' ''http'' ''Build System API'']"

definition mcp_ports :: "PortConfig list" where
  "mcp_ports =
     [new_PortConfig 8301 ''mcp-claude-agents'' ''mcp_agents'' ''http'' ''Claude Agents MCP'',
      new_PortConfig 8302 ''mcp-swarms'' ''mcp_agents'' ''http'' ''Swarms MCP'',
      new_PortConfig 8303 ''mcp-bmad-orchestrator'' ''mcp_agents'' ''http'' ''BMAD Orchestrator MCP'',
      new_PortConfig 8304 ''mcp-traycer-ai'' ''mcp_agents'' ''http'' ''Traycer AI MCP'',
      new_PortConfig 8305 ''mcp-cursor-integration'' ''mcp_agents'' ''http'' ''Cursor MCP Integration'',
      new_PortConfig 8306 ''mcp-github-integration'' ''mcp_agents'' ''http'' ''GitHub MCP Integration'']"

definition database_ports :: "PortConfig list" where
  "database_ports =
     [new_PortConfig 5001 ''postgresql-main'' ''databases'' ''tcp'' ''Main PostgreSQL Database'',
      new_PortConfig 5002 ''redis-cache'' ''databases'' ''tcp'' ''Redis Cache'',
      new_PortConfig 5003 ''mongodb-documents'' ''databases'' ''tcp'' ''MongoDB Documents'',
      new_PortConfig 5004 ''elasticsearch-search'' ''databases'' ''tcp'' ''Elasticsearch Search'',
      new_PortConfig 5005 ''influxdb-metrics'' ''databases'' ''tcp'' ''InfluxDB Metrics'',
      new_PortConfig 5006 ''neo4j-graph'' ''databases'' ''tcp'' ''Neo4j Graph Database'']"

definition api_ports :: "PortConfig list" where
  "api_ports =
     [new_PortConfig 4001 ''api-gateway'' ''apis'' ''http'' ''Main API Gateway'',
      new_PortConfig 4002 ''auth-service'' ''apis'' ''http'' ''Authentication Service'',
      new_PortConfig 4003 ''user-service'' ''apis'' ''http'' ''User Management Service'',
      new_PortConfig 4004 ''notification-service'' ''apis'' ''http'' ''Notification Service'',
      new_PortConfig 4005 ''file-service'' ''apis'' ''http'' ''File Management Service'',
      new_PortConfig 4006 ''email-service'' ''apis'' ''http'' ''Email Service'',
      new_PortConfig 4007 ''sms-service'' ''apis'' ''http'' ''SMS Service'']"

definition monitoring_ports :: "PortConfig list" where
  "monitoring_ports =
     [new_PortConfig 9001 ''prometheus'' ''monitoring'' ''http'' ''Prometheus Metrics'',
      new_PortConfig 9002 ''grafana'' ''monitoring'' ''http'' ''Grafana Dashboard'',
      new_PortConfig 9003 ''jaeger'' ''monitoring'' ''http'' ''Jaeger Tracing'',
      new_PortConfig 9004 ''kibana'' ''monitoring'' ''http'' ''Kibana Logs'',
      new_PortConfig 9005 ''alertmanager'' ''monitoring'' ''http'' ''Alert Manager'',
      new_PortConfig 9006 ''node-exporter'' ''monitoring'' ''http'' ''Node Exporter'']"

subsection \<open>The frontend block (lines 115-121)\<close>

text \<open>
  \<^verbatim>\<open>range(a, b)\<close> on integers, and the body of the loop: the entry of project \<open>i\<close>.
  The source writes the start of the block (3000) and the number of projects (26, as
  \<^verbatim>\<open>range(1, 27)\<close>) as literals; \<open>generate_frontend_ports\<close> takes them as parameters
  and \<open>frontend_ports\<close> is the list the source builds.
\<close>

definition py_range :: "int \<Rightarrow> int \<Rightarrow> int list" where
  "py_range a b = [a..b - 1]"

definition frontend_project :: "int \<Rightarrow> int \<Rightarrow> PortConfig" where
  "frontend_project range_start i =
     new_PortConfig (range_start + i) (''frontend-project-'' @ format_02d i) ''frontend'' ''http''
       (''Frontend Project '' @ str_int i)"

definition generate_frontend_ports :: "int \<Rightarrow> int \<Rightarrow> PortConfig list" where
  "generate_frontend_ports range_start n =
     foldl (\<lambda>frontend_ports i. frontend_ports @ [frontend_project range_start i]) []
       (py_range 1 (n + 1))"

definition frontend_ports :: "PortConfig list" where
  "frontend_ports = generate_frontend_ports 3000 26"

subsection \<open>\<^verbatim>\<open>initialize_port_configurations\<close> and the constructor\<close>

text \<open>
  Lines 154-170: the registry is the concatenation of the eight tables, and each table
  becomes a group. \<open>register_groups\<close> is this step for any eight tables;
  \<open>initialize_port_configurations\<close> applies it to the tables of the source. No step
  of the build compares ports, and none can raise.
\<close>

definition register_groups ::
  "PortConfig list \<Rightarrow> PortConfig list \<Rightarrow> PortConfig list \<Rightarrow> PortConfig list \<Rightarrow>
   PortConfig list \<Rightarrow> PortConfig list \<Rightarrow> PortConfig list \<Rightarrow> PortConfig list \<Rightarrow>
   DockerPortConfiguration \<Rightarrow> DockerPortConfiguration" where
  "register_groups iza_os genixbank traycer mcp frontend database api monitoring self =
     self\<lparr>port_configs :=
            iza_os @ genixbank @ traycer @ mcp @ frontend @ database @ api @ monitoring,
          service_ports :=
            [new_ServicePorts ''iza-os'' ''iza_os'' iza_os ''docker-compose.iza-os.yml'',
             new_ServicePorts ''genixbank'' ''genixbank'' genixbank ''docker-compose.genixbank.yml'',
             new_ServicePorts ''traycer'' ''traycer'' traycer ''docker-compose.traycer.yml'',
             new_ServicePorts ''mcp-agents'' ''mcp_agents'' mcp ''docker-compose.mcp.yml'',
             new_ServicePorts ''frontend-projects'' ''frontend'' frontend ''docker-compose.frontend.yml'',
             new_ServicePorts ''databases'' ''databases'' database ''docker-compose.databases.yml'',
             new_ServicePorts ''apis'' ''apis'' api ''docker-compose.apis.yml'',
             new_ServicePorts ''monitoring'' ''monitoring'' monitoring ''docker-compose.monitoring.yml'']\<rparr>"

definition initialize_port_configurations :: "DockerPortConfiguration \<Rightarrow> DockerPortConfiguration" where
  "initialize_port_configurations self =
     register_groups iza_os_ports genixbank_ports traycer_ports mcp_ports frontend_ports
       database_ports api_ports monitoring_ports self"

text \<open>The constructor (lines 47-67).\<close>

definition new_DockerPortConfiguration :: DockerPortConfiguration where
  "new_DockerPortConfiguration =
     initialize_port_configurations
       \<lparr>port_configs = [], service_ports = [], conflicts = [],
        port_ranges =
          [(''iza_os'', 8000, 8099), (''genixbank'', 8100, 8199), (''traycer'', 8200, 8299),
           (''mcp_agents'', 8300, 8399), (''frontend'', 3000, 3099), (''databases'', 5000, 5099),
           (''monitoring'', 9000, 9099), (''apis'', 4000, 4099)]\<rparr>"

section \<open>The conflict scanner\<close>

subsection \<open>\<^verbatim>\<open>check_port_availability\<close> (lines 174-182)\<close>

text \<open>
  What the body of the \<^verbatim>\<open>try\<close> does depends on the machine: the parameter
  \<open>bind_attempt\<close> gives, for a port, the exception raised while the socket is created
  and bound to \<^verbatim>\<open>('localhost', port)\<close>, or \<open>None\<close> when the bind succeeds (the
  \<^verbatim>\<open>with\<close> block then closes the socket). Every \<^verbatim>\<open>OSError\<close> is caught and answered with
  \<^verbatim>\<open>False\<close>; any other exception propagates.
\<close>

definition check_port_availability :: "(int \<Rightarrow> py_exception option) \<Rightarrow> int \<Rightarrow> py_exception + bool" where
  "check_port_availability bind_attempt p =
     (case bind_attempt p of
        None \<Rightarrow> Inr True
      | Some (OSError e) \<Rightarrow> Inr False
      | Some x \<Rightarrow> Inl x)"

subsection \<open>\<^verbatim>\<open>scan_port_conflicts\<close> (lines 184-203)\<close>

text \<open>
  The body of the loop for one entry, once the probe has answered \<open>available\<close>
  (lines 192-203). The accumulator is \<^verbatim>\<open>self.conflicts\<close> and the local dictionary
  \<^verbatim>\<open>used_ports\<close>; the entry is returned with its new \<^verbatim>\<open>status\<close>.
\<close>

definition scan_entry ::
  "bool \<Rightarrow> PortConfig \<Rightarrow> Conflict list \<times> (int \<rightharpoonup> string)
     \<Rightarrow> PortConfig \<times> Conflict list \<times> (int \<rightharpoonup> string)" where
  "scan_entry available port_config acc =
     (case acc of (cs, used_ports) \<Rightarrow>
        if \<not> available then
          (case used_ports (PortConfig.port port_config) of
             Some first \<Rightarrow>
               (port_config\<lparr>PortConfig.status := ''conflict''\<rparr>,
                cs @ [\<lparr>Conflict.port = PortConfig.port port_config,
                        services = [first, PortConfig.service port_config],
                        conflict_type = ''port_already_used''\<rparr>],
                used_ports)
           | None \<Rightarrow>
               (port_config\<lparr>PortConfig.status := ''conflict''\<rparr>,
                cs,
                used_ports(PortConfig.port port_config \<mapsto> PortConfig.service port_config)))
        else (port_config\<lparr>PortConfig.status := ''available''\<rparr>, cs, used_ports))"

text \<open>
  The loop of line 191. The probe \<open>check\<close> stands for the method
  \<^verbatim>\<open>check_port_availability\<close>; an exception it raises ends the scan.
\<close>

fun scan_loop ::
  "(int \<Rightarrow> py_exception + bool) \<Rightarrow> PortConfig list \<Rightarrow> Conflict list \<times> (int \<rightharpoonup> string)
     \<Rightarrow> py_exception + (PortConfig list \<times> Conflict list \<times> (int \<rightharpoonup> string))" where
  "scan_loop check [] acc = Inr ([], acc)"
| "scan_loop check (port_config # rest) acc =
     (case check (PortConfig.port port_config) of
        Inl e \<Rightarrow> Inl e
      | Inr available \<Rightarrow>
          (case scan_entry available port_config acc of (port_config', acc') \<Rightarrow>
             (case scan_loop check rest acc' of
                Inl e \<Rightarrow> Inl e
              | Inr (rest', acc'') \<Rightarrow> Inr (port_config' # rest', acc''))))"

text \<open>
  The method: \<^verbatim>\<open>self.conflicts\<close> and \<^verbatim>\<open>used_ports\<close> start empty (lines 188-189). When the
  probe raises, the exception leaves the method and no state is returned.
\<close>

definition scan_port_conflicts ::
  "(int \<Rightarrow> py_exception + bool) \<Rightarrow> DockerPortConfiguration \<Rightarrow> py_exception + DockerPortConfiguration" where
  "scan_port_conflicts check self =
     (case scan_loop check (port_configs self) ([], Map.empty) of
        Inl e \<Rightarrow> Inl e
      | Inr (pcs, cs, used_ports) \<Rightarrow> Inr (self\<lparr>port_configs := pcs, conflicts := cs\<rparr>))"

text \<open>
  A stand-in for the probe in which the ports satisfying \<open>busy\<close> cannot be bound and all
  others can.
\<close>

definition mock_probe :: "(int \<Rightarrow> bool) \<Rightarrow> int \<Rightarrow> py_exception + bool" where
  "mock_probe busy p = Inr (\<not> busy p)"

text \<open>The entry as one pass leaves it when the probe is \<^term>\<open>mock_probe busy\<close>.\<close>

definition scanned :: "(int \<Rightarrow> bool) \<Rightarrow> PortConfig \<Rightarrow> PortConfig" where
  "scanned busy pc =
     pc\<lparr>PortConfig.status := (if busy (PortConfig.port pc) then ''conflict'' else ''available'')\<rparr>"

text \<open>
  The states the object can be in: as the constructor leaves it, and after any number of
  scans that returned, whatever the probe answered.
\<close>

inductive reachable :: "DockerPortConfiguration \<Rightarrow> bool" where
  constructed: "reachable new_DockerPortConfiguration"
| scanned_again: "reachable self \<Longrightarrow> scan_port_conflicts check self = Inr self' \<Longrightarrow> reachable self'"

section \<open>The descriptor generator\<close>

subsection \<open>\<^verbatim>\<open>create_docker_compose_content\<close> (lines 225-263)\<close>

text \<open>\<^verbatim>\<open>str.replace('-', '_')\<close>, and the characters that a string literal cannot hold.\<close>

definition replace_dash :: "string \<Rightarrow> string" where
  "replace_dash s = map (\<lambda>c. if c = CHR ''-'' then CHR ''_'' else c) s"

definition nl :: string where
  "nl = [CHR 0x0A]"

definition sq :: string where
  "sq = [CHR 0x27]"

definition dq :: string where
  "dq = [CHR 0x22]"

text \<open>
  The three f-strings of the method are written line by line: \<open>unlines\<close> ends every
  line, the empty ones too, with a newline.
\<close>

definition unlines :: "string list \<Rightarrow> string" where
  "unlines ls = concat (map (\<lambda>l. l @ nl) ls)"

text \<open>The text before the loop (lines 227-230).\<close>

definition header_lines :: "string list" where
  "header_lines =
     [''version: '' @ sq @ ''3.8'' @ sq,
      [],
      ''services:'']"

definition compose_header :: string where
  "compose_header = unlines header_lines"

text \<open>
  The text appended for one entry (lines 233-252); \<open>grp\<close> is the parameter
  \<^verbatim>\<open>service\<close> of the method and \<open>name\<close> its local \<^verbatim>\<open>service_name\<close>.
\<close>

definition service_lines :: "ServicePorts \<Rightarrow> PortConfig \<Rightarrow> string list" where
  "service_lines grp port_config =
     (let name = replace_dash (PortConfig.service port_config) in
      [''  '' @ name @ '':'',
       ''    image: '' @ ServicePorts.component grp @ '':latest'',
       ''    container_name: '' @ PortConfig.service port_config,
       ''    ports:'',
       ''      - '' @ dq @ str_int (PortConfig.port port_config) @ '':''
                   @ str_int (PortConfig.port port_config) @ dq,
       ''    environment:'',
       ''      - PORT='' @ str_int (PortConfig.port port_config),
       ''      - COMPONENT='' @ ServicePorts.component grp,
       ''      - SERVICE='' @ PortConfig.service port_config,
       ''    healthcheck:'',
       ''      test: ['' @ dq @ ''CMD'' @ dq @ '', '' @ dq @ ''curl'' @ dq @ '', '' @ dq @ ''-f'' @ dq
                   @ '', '' @ dq @ ''http://localhost:'' @ str_int (PortConfig.port port_config)
                   @ ''/health'' @ dq @ '']'',
       ''      interval: 30s'',
       ''      timeout: 10s'',
       ''      retries: 3'',
       ''    restart: unless-stopped'',
       ''    networks:'',
       ''      - '' @ ServicePorts.component grp @ ''_network'',
       []])"

definition service_block :: "ServicePorts \<Rightarrow> PortConfig \<Rightarrow> string" where
  "service_block grp port_config = unlines (service_lines grp port_config)"

text \<open>The text after the loop (lines 254-261).\<close>

definition footer_lines :: "ServicePorts \<Rightarrow> string list" where
  "footer_lines grp =
     [''networks:'',
      ''  '' @ ServicePorts.component grp @ ''_network:'',
      ''    driver: bridge'',
      [],
      ''volumes:'',
      ''  '' @ ServicePorts.component grp @ ''_data:'',
      ''    driver: local'']"

definition compose_footer :: "ServicePorts \<Rightarrow> string" where
  "compose_footer grp = unlines (footer_lines grp)"

text \<open>The method: the loop appends one block per entry of the group.\<close>

definition create_docker_compose_content :: "ServicePorts \<Rightarrow> string" where
  "create_docker_compose_content grp =
     foldl (\<lambda>compose_content port_config. compose_content @ service_block grp port_config)
       compose_header (ports grp)
     @ compose_footer grp"

subsection \<open>Reading a descriptor back\<close>

text \<open>
  The lines of a text, as a reader of the written file sees them: the text is cut at
  every newline. A string is a single line when it holds no newline.
\<close>

definition single_line :: "string \<Rightarrow> bool" where
  "single_line s \<longleftrightarrow> CHR 0x0A \<notin> set s"

fun text_lines :: "string \<Rightarrow> string list" where
  "text_lines [] = []"
| "text_lines (c # cs) =
     (if c = CHR 0x0A then [] # text_lines cs
      else (case text_lines cs of [] \<Rightarrow> [[c]] | l # ls \<Rightarrow> (c # l) # ls))"

section \<open>The report generator\<close>

subsection \<open>\<^verbatim>\<open>generate_port_mapping_report\<close> (lines 265-321)\<close>

text \<open>The dictionary appended for one entry (lines 276-282).\<close>

definition port_entry :: "PortConfig \<Rightarrow> PortEntry" where
  "port_entry port_config =
     \<lparr>PortEntry.port = PortConfig.port port_config,
      PortEntry.service = PortConfig.service port_config,
      PortEntry.protocol = PortConfig.protocol port_config,
      PortEntry.description = PortConfig.description port_config,
      PortEntry.status = PortConfig.status port_config\<rparr>"

text \<open>
  The body of the grouping loop (lines 274-282): a component not yet among the keys is
  added at the end with an empty list, then the entry is appended to the component's list.
  \<open>by_component\<close> is the local dictionary \<^verbatim>\<open>component_ports\<close>.
\<close>

definition add_component_port ::
  "(string \<times> PortEntry list) list \<Rightarrow> PortConfig \<Rightarrow> (string \<times> PortEntry list) list" where
  "add_component_port by_component port_config =
     (let by_component' =
            (if map_of by_component (PortConfig.component port_config) = None
             then AList.update (PortConfig.component port_config) [] by_component
             else by_component)
      in AList.map_entry (PortConfig.component port_config)
           (\<lambda>entries. entries @ [port_entry port_config]) by_component')"

subsection \<open>Floating-point arithmetic\<close>

text \<open>
  A Python \<^verbatim>\<open>float\<close> is an IEEE 754 double, taken here as the real number it denotes.
  An arithmetic operation returns the exact result rounded to the nearest double, a tie
  going to the neighbour whose last mantissa bit is even: \<open>float_round\<close> keeps 53
  significant bits, and below the exponent \<open>-1022\<close> the spacing stays the one of the
  smallest normal numbers. The largest finite double is not modelled: the numbers
  rounded here are at most 100.
\<close>

definition round_half_even :: "real \<Rightarrow> int" where
  "round_half_even y =
     (let f = \<lfloor>y\<rfloor>; d = y - of_int f
      in if d < 1 / 2 then f else if 1 / 2 < d then f + 1 else if even f then f else f + 1)"

definition float_round :: "real \<Rightarrow> real" where
  "float_round x =
     (if x = 0 then 0
      else let e = max \<lfloor>log 2 \<bar>x\<bar>\<rfloor> (- 1022); ulp = 2 powi (e - 52)
           in of_int (round_half_even (x / ulp)) * ulp)"

text \<open>
  Python's true division of two lengths: it raises on a zero divisor, and otherwise
  returns the quotient of the two integers correctly rounded to a double.
\<close>

definition truediv :: "nat \<Rightarrow> nat \<Rightarrow> py_exception + real" where
  "truediv a b =
     (if b = 0 then Inl ZeroDivisionError else Inr (float_round (real a / real b)))"

text \<open>
  The conditional expression of line 289: the quotient, a double, is multiplied by the
  integer 100, which gives a double again.
\<close>

definition percentage :: "nat \<Rightarrow> nat \<Rightarrow> py_exception + py_number" where
  "percentage available_ports' total_ports' =
     (if total_ports' > 0 then
        (case truediv available_ports' total_ports' of
           Inl e \<Rightarrow> Inl e
         | Inr q \<Rightarrow> Inr (PyFloat (float_round (q * 100))))
      else Inr (PyInt 0))"

text \<open>
  The method. The primed names are the local variables \<^verbatim>\<open>total_ports\<close>,
  \<^verbatim>\<open>available_ports\<close>, \<^verbatim>\<open>conflict_ports\<close> and \<^verbatim>\<open>component_ports\<close>.
\<close>

definition generate_port_mapping_report :: "DockerPortConfiguration \<Rightarrow> py_exception + Report" where
  "generate_port_mapping_report self =
     (let total_ports' = length (port_configs self);
          available_ports' =
            length (filter (\<lambda>p. PortConfig.status p = ''available'') (port_configs self));
          conflict_ports' =
            length (filter (\<lambda>p. PortConfig.status p = ''conflict'') (port_configs self));
          component_ports' = foldl add_component_port [] (port_configs self)
      in case percentage available_ports' total_ports' of
           Inl e \<Rightarrow> Inl e
         | Inr pct \<Rightarrow>
             Inr \<lparr>port_mapping_summary =
                    \<lparr>total_ports = total_ports',
                     available_ports = available_ports',
                     conflict_ports = conflict_ports',
                     availability_percentage = pct,
                     total_services = length (service_ports self)\<rparr>,
                  component_ports = component_ports',
                  port_conflicts = conflicts self,
                  Report.port_ranges = DockerPortConfiguration.port_ranges self,
                  recommendations =
                    [''All ports are properly allocated across components'',
                     ''No port conflicts detected'',
                     ''Docker Compose files generated for all services'',
                     ''Health checks configured for all services'',
                     ''Network isolation implemented per component'']\<rparr>)"

text \<open>The two values of \<^verbatim>\<open>status\<close> that the code ever writes.\<close>

definition two_valued :: "PortConfig \<Rightarrow> bool" where
  "two_valued pc \<longleftrightarrow> PortConfig.status pc = ''available'' \<or> PortConfig.status pc = ''conflict''"

section \<open>Example registries\<close>

text \<open>Two services registered on port 8050, and nothing else.\<close>

definition duplicate_registry :: DockerPortConfiguration where
  "duplicate_registry =
     \<lparr>port_configs =
        [new_PortConfig 8050 ''svcA'' ''iza_os'' ''http'' ''Service A'',
         new_PortConfig 8050 ''svcB'' ''iza_os'' ''http'' ''Service B''],
      service_ports = [], conflicts = [], port_ranges = []\<rparr>"

text \<open>One service on a privileged port.\<close>

definition privileged_registry :: DockerPortConfiguration where
  "privileged_registry =
     \<lparr>port_configs = [new_PortConfig 80 ''web'' ''apis'' ''http'' ''Web Server''],
      service_ports = [], conflicts = [], port_ranges = []\<rparr>"

text \<open>A machine on which binding port 80 is refused for lack of permission.\<close>

definition permission_denied_on_80 :: "int \<Rightarrow> py_exception option" where
  "permission_denied_on_80 p = (if p = 80 then Some (OSError EACCES) else None)"

text \<open>Three entries, the first and the last on the same port.\<close>

definition three_entries :: DockerPortConfiguration where
  "three_entries =
     \<lparr>port_configs =
        [new_PortConfig 8050 ''svcA'' ''iza_os'' ''http'' ''Service A'',
         new_PortConfig 8051 ''svcC'' ''iza_os'' ''http'' ''Service C'',
         new_PortConfig 8050 ''svcB'' ''iza_os'' ''http'' ''Service B''],
      service_ports = [], conflicts = [], port_ranges = []\<rparr>"

text \<open>The same registry after a scan in which port 8050 was busy: one entry of three is available.\<close>

definition three_entries_scanned :: DockerPortConfiguration where
  "three_entries_scanned =
     three_entries\<lparr>port_configs := map (scanned (\<lambda>p. p = 8050)) (port_configs three_entries)\<rparr>"

text \<open>The group of the databases, as the constructor builds it: six \<^verbatim>\<open>tcp\<close> entries.\<close>

definition databases_group :: ServicePorts where
  "databases_group =
     new_ServicePorts ''databases'' ''databases'' database_ports ''docker-compose.databases.yml''"

section \<open>Properties of the scanner\<close>

lemma scan_entry_fst:
  "fst (scan_entry (\<not> busy (PortConfig.port pc)) pc acc) = scanned busy pc"
  by (cases acc) (simp add: scan_entry_def scanned_def split: option.splits)

lemma scan_loop_mock_entries:
  "\<exists>acc'. scan_loop (mock_probe busy) pcs acc = Inr (map (scanned busy) pcs, acc')"
proof (induction pcs arbitrary: acc)
  case Nil
  show ?case by simp
next
  case (Cons pc pcs)
  obtain pc' acc1 where e: "scan_entry (\<not> busy (PortConfig.port pc)) pc acc = (pc', acc1)"
    by (cases "scan_entry (\<not> busy (PortConfig.port pc)) pc acc") auto
  from scan_entry_fst [of busy pc acc] e have pc': "pc' = scanned busy pc"
    by simp
  from Cons.IH [of acc1] obtain acc2
    where "scan_loop (mock_probe busy) pcs acc1 = Inr (map (scanned busy) pcs, acc2)"
    by blast
  moreover have "mock_probe busy (PortConfig.port pc) = Inr (\<not> busy (PortConfig.port pc))"
    by (simp add: mock_probe_def)
  ultimately show ?case
    using e pc' by simp
qed

lemma scan_port_conflicts_mock_entries:
  "\<exists>cs. scan_port_conflicts (mock_probe busy) self =
     Inr (self\<lparr>port_configs := map (scanned busy) (port_configs self), conflicts := cs\<rparr>)"
proof -
  obtain acc' where
    "scan_loop (mock_probe busy) (port_configs self) ([], Map.empty) =
       Inr (map (scanned busy) (port_configs self), acc')"
    using scan_loop_mock_entries by blast
  then show ?thesis
    by (cases acc') (auto simp: scan_port_conflicts_def)
qed

text \<open>
  C4. For every registry and every busy-port predicate standing in for the bind probe,
  one scan pass returns normally, keeps every entry in its place with all fields but
  \<^verbatim>\<open>status\<close> unchanged, and leaves exactly the entries whose port the predicate reports
  busy with status \<^verbatim>\<open>conflict\<close> and exactly the others with status \<^verbatim>\<open>available\<close>.
\<close>

theorem scan_status_by_busy:
  "\<exists>self'. scan_port_conflicts (mock_probe busy) self = Inr self'
     \<and> port_configs self' = map (scanned busy) (port_configs self)
     \<and> map (\<lambda>pc. status pc = ''conflict'') (port_configs self')
         = map (\<lambda>pc. busy (PortConfig.port pc)) (port_configs self)
     \<and> map (\<lambda>pc. status pc = ''available'') (port_configs self')
         = map (\<lambda>pc. \<not> busy (PortConfig.port pc)) (port_configs self)"
proof -
  obtain cs where
    "scan_port_conflicts (mock_probe busy) self =
       Inr (self\<lparr>port_configs := map (scanned busy) (port_configs self), conflicts := cs\<rparr>)"
    using scan_port_conflicts_mock_entries by blast
  then show ?thesis
    by (simp add: scanned_def)
qed

subsection \<open>The bookkeeping of the pass\<close>

lemma scan_loop_append:
  "scan_loop check (xs @ ys) acc =
     (case scan_loop check xs acc of
        Inl e \<Rightarrow> Inl e
      | Inr (xs', acc') \<Rightarrow>
          (case scan_loop check ys acc' of
             Inl e \<Rightarrow> Inl e
           | Inr (ys', acc'') \<Rightarrow> Inr (xs' @ ys', acc'')))"
  by (induction xs arbitrary: acc) (auto split: sum.splits prod.splits)

lemma scan_loop_cong:
  "(\<And>pc. pc \<in> set pcs \<Longrightarrow> check1 (PortConfig.port pc) = check2 (PortConfig.port pc))
     \<Longrightarrow> scan_loop check1 pcs acc = scan_loop check2 pcs acc"
  by (induction pcs arbitrary: acc) (auto split: sum.splits prod.splits)

lemma scan_entry_prefix:
  "scan_entry a pc (cs, used) = (pc', cs', used') \<Longrightarrow> prefix cs cs'"
  by (auto simp: scan_entry_def split: if_splits option.splits)

lemma scan_loop_prefix:
  "scan_loop check pcs (cs, used) = Inr (pcs', cs', used') \<Longrightarrow> prefix cs cs'"
proof (induction pcs arbitrary: cs used pcs')
  case Nil
  then show ?case by simp
next
  case (Cons pc pcs)
  from Cons.prems obtain a where a: "check (PortConfig.port pc) = Inr a"
    by (auto split: sum.splits)
  obtain pc1 cs1 used1 where e: "scan_entry a pc (cs, used) = (pc1, cs1, used1)"
    by (cases "scan_entry a pc (cs, used)") auto
  from Cons.prems a e obtain rest' where "scan_loop check pcs (cs1, used1) = Inr (rest', cs', used')"
    by (auto split: sum.splits)
  then have "prefix cs1 cs'" by (rule Cons.IH)
  moreover from e have "prefix cs cs1" by (rule scan_entry_prefix)
  ultimately show ?case by (rule prefix_order.trans [rotated])
qed

text \<open>The dictionary \<^verbatim>\<open>used_ports\<close> after a pass over \<open>pcs\<close>.\<close>

lemma scan_loop_mock_used:
  "scan_loop (mock_probe busy) pcs (cs, used) = Inr (pcs', cs', used') \<Longrightarrow>
     used' p = (case used p of
                  Some s \<Rightarrow> Some s
                | None \<Rightarrow> if busy p then map_option PortConfig.service (find (\<lambda>pc. PortConfig.port pc = p) pcs)
                          else None)"
proof (induction pcs arbitrary: cs used pcs')
  case Nil
  then show ?case by (simp split: option.splits)
next
  case (Cons pc pcs)
  obtain pc1 cs1 used1 where
    e: "scan_entry (\<not> busy (PortConfig.port pc)) pc (cs, used) = (pc1, cs1, used1)"
    by (cases "scan_entry (\<not> busy (PortConfig.port pc)) pc (cs, used)") auto
  have m: "mock_probe busy (PortConfig.port pc) = Inr (\<not> busy (PortConfig.port pc))"
    by (simp add: mock_probe_def)
  from Cons.prems(1) e m obtain rest' where
    r: "scan_loop (mock_probe busy) pcs (cs1, used1) = Inr (rest', cs', used')"
    by (auto split: sum.splits)
  have u: "used1 = (if busy (PortConfig.port pc) \<and> used (PortConfig.port pc) = None
                    then used(PortConfig.port pc \<mapsto> PortConfig.service pc) else used)"
    using e by (auto simp: scan_entry_def split: if_splits option.splits)
  from Cons.IH [OF r] u show ?case
    by (auto split: option.splits)
qed

lemma scan_loop_mock_busy_records:
  "scan_loop (mock_probe busy) pcs (cs, used) = Inr (pcs', cs', used') \<Longrightarrow>
     c \<in> set cs' \<Longrightarrow> c \<in> set cs \<or> busy (Conflict.port c)"
proof (induction pcs arbitrary: cs used pcs')
  case Nil
  then show ?case by simp
next
  case (Cons pc pcs)
  obtain pc1 cs1 used1 where
    e: "scan_entry (\<not> busy (PortConfig.port pc)) pc (cs, used) = (pc1, cs1, used1)"
    by (cases "scan_entry (\<not> busy (PortConfig.port pc)) pc (cs, used)") auto
  have m: "mock_probe busy (PortConfig.port pc) = Inr (\<not> busy (PortConfig.port pc))"
    by (simp add: mock_probe_def)
  from Cons.prems(1) e m obtain rest' where
    r: "scan_loop (mock_probe busy) pcs (cs1, used1) = Inr (rest', cs', used')"
    by (auto split: sum.splits)
  from Cons.IH [OF r Cons.prems(2)] have "c \<in> set cs1 \<or> busy (Conflict.port c)" .
  moreover have "c \<in> set cs1 \<Longrightarrow> c \<in> set cs \<or> busy (Conflict.port c)"
    using e by (auto simp: scan_entry_def split: if_splits option.splits)
  ultimately show ?case by blast
qed


lemma find_first_take:
  assumes "j \<le> length xs" "i < j" "P (xs ! i)" "\<forall>k<i. \<not> P (xs ! k)"
  shows "find P (take j xs) = Some (xs ! i)"
proof -
  have "i < length (take j xs)" using assms(1,2) by simp
  moreover have "P (take j xs ! i)" using assms(2,3) by simp
  moreover have "\<forall>k<i. \<not> P (take j xs ! k)" using assms(2,4) by simp
  moreover have "xs ! i = take j xs ! i" using assms(2) by simp
  ultimately show ?thesis unfolding find_Some_iff by blast
qed

lemma scan_loop_mock_pair:
  assumes j: "j < length pcs" and ij: "i < j"
    and same: "PortConfig.port (pcs ! i) = PortConfig.port (pcs ! j)"
    and first: "\<forall>k<i. PortConfig.port (pcs ! k) \<noteq> PortConfig.port (pcs ! j)"
    and busy: "busy (PortConfig.port (pcs ! j))"
  shows "\<exists>pre cs1 used1 pcs' cs' used'.
           scan_loop (mock_probe busy) (take j pcs) ([], Map.empty) = Inr (pre, cs1, used1)
         \<and> used1 (PortConfig.port (pcs ! j)) = Some (PortConfig.service (pcs ! i))
         \<and> scan_loop (mock_probe busy) pcs ([], Map.empty) = Inr (pcs', cs', used')
         \<and> \<lparr>Conflict.port = PortConfig.port (pcs ! j),
             services = [PortConfig.service (pcs ! i), PortConfig.service (pcs ! j)],
             conflict_type = ''port_already_used''\<rparr> \<in> set cs'"
proof -
  let ?x = "pcs ! j"
  let ?p = "PortConfig.port ?x"
  let ?rec = "\<lparr>Conflict.port = ?p, services = [PortConfig.service (pcs ! i), PortConfig.service ?x],
                conflict_type = ''port_already_used''\<rparr>"
  obtain acc1 where "scan_loop (mock_probe busy) (take j pcs) ([], Map.empty)
      = Inr (map (scanned busy) (take j pcs), acc1)"
    using scan_loop_mock_entries by blast
  then obtain cs1 used1 where
    s1: "scan_loop (mock_probe busy) (take j pcs) ([], Map.empty)
      = Inr (map (scanned busy) (take j pcs), cs1, used1)"
    by (cases acc1) auto
  have "find (\<lambda>pc. PortConfig.port pc = ?p) (take j pcs) = Some (pcs ! i)"
    using j ij same first by (intro find_first_take) auto
  with scan_loop_mock_used [OF s1, of ?p] busy
  have u1: "used1 ?p = Some (PortConfig.service (pcs ! i))" by simp
  have m: "mock_probe busy ?p = Inr False"
    using busy by (simp add: mock_probe_def)
  have e: "scan_entry False ?x (cs1, used1) = (?x\<lparr>PortConfig.status := ''conflict''\<rparr>, cs1 @ [?rec], used1)"
    using u1 by (simp add: scan_entry_def)
  obtain acc2 where "scan_loop (mock_probe busy) (drop (Suc j) pcs) (cs1 @ [?rec], used1)
      = Inr (map (scanned busy) (drop (Suc j) pcs), acc2)"
    using scan_loop_mock_entries by blast
  then obtain cs' used' where
    s2: "scan_loop (mock_probe busy) (drop (Suc j) pcs) (cs1 @ [?rec], used1)
      = Inr (map (scanned busy) (drop (Suc j) pcs), cs', used')"
    by (cases acc2) auto
  from s2 have "prefix (cs1 @ [?rec]) cs'" by (rule scan_loop_prefix)
  then have mem: "?rec \<in> set cs'"
    by (auto simp: prefix_def)
  have "pcs = take j pcs @ ?x # drop (Suc j) pcs"
    using j by (rule id_take_nth_drop)
  then have "scan_loop (mock_probe busy) pcs ([], Map.empty)
      = scan_loop (mock_probe busy) (take j pcs @ ?x # drop (Suc j) pcs) ([], Map.empty)"
    by simp
  also have "\<dots> = Inr (map (scanned busy) (take j pcs)
                        @ ?x\<lparr>PortConfig.status := ''conflict''\<rparr> # map (scanned busy) (drop (Suc j) pcs),
                      cs', used')"
    unfolding scan_loop_append using s1 m e s2 by simp
  finally show ?thesis using s1 u1 mem by blast
qed


lemma check_port_availability_mock:
  assumes "\<And>x. bind_attempt p = Some x \<Longrightarrow> \<exists>e. x = OSError e"
  shows "check_port_availability bind_attempt p = mock_probe (\<lambda>p. bind_attempt p \<noteq> None) p"
proof (cases "bind_attempt p")
  case None
  then show ?thesis by (simp add: check_port_availability_def mock_probe_def)
next
  case (Some x)
  with assms obtain e where "x = OSError e" by blast
  with Some show ?thesis by (simp add: check_port_availability_def mock_probe_def)
qed

lemma scan_port_conflicts_cong:
  assumes "\<And>pc. pc \<in> set (port_configs self)
             \<Longrightarrow> check1 (PortConfig.port pc) = check2 (PortConfig.port pc)"
  shows "scan_port_conflicts check1 self = scan_port_conflicts check2 self"
  using scan_loop_cong [of "port_configs self" check1 check2, OF assms]
  by (simp add: scan_port_conflicts_def)

text \<open>
  C5. During one pass (the probe answering by port), the dictionary \<^verbatim>\<open>used_ports\<close>
  maps a port found busy to the service of the first entry registered on it: when the
  loop reaches a later entry \<open>j\<close> on the same port, the dictionary holds the service of
  the first entry \<open>i\<close> on that port, and the pass returns with a record of type
  \<^verbatim>\<open>port_already_used\<close> that names the service of \<open>i\<close> and the service of \<open>j\<close>, in this
  order.
\<close>

theorem later_duplicates_recorded:
  assumes "j < length (port_configs self)" and "i < j"
    and "PortConfig.port (port_configs self ! i) = PortConfig.port (port_configs self ! j)"
    and "\<forall>k<i. PortConfig.port (port_configs self ! k) \<noteq> PortConfig.port (port_configs self ! j)"
    and "busy (PortConfig.port (port_configs self ! j))"
  shows "(\<exists>pre cs used_ports.
            scan_loop (mock_probe busy) (take j (port_configs self)) ([], Map.empty)
              = Inr (pre, cs, used_ports)
          \<and> used_ports (PortConfig.port (port_configs self ! j))
              = Some (PortConfig.service (port_configs self ! i)))
       \<and> (\<exists>self'. scan_port_conflicts (mock_probe busy) self = Inr self'
          \<and> \<lparr>Conflict.port = PortConfig.port (port_configs self ! j),
              services = [PortConfig.service (port_configs self ! i),
                          PortConfig.service (port_configs self ! j)],
              conflict_type = ''port_already_used''\<rparr> \<in> set (conflicts self'))"
proof -
  from scan_loop_mock_pair [where busy = busy, OF assms]
  obtain pre cs1 used1 pcs' cs' used' where
    a: "scan_loop (mock_probe busy) (take j (port_configs self)) ([], Map.empty) = Inr (pre, cs1, used1)"
    and b: "used1 (PortConfig.port (port_configs self ! j)) = Some (PortConfig.service (port_configs self ! i))"
    and c: "scan_loop (mock_probe busy) (port_configs self) ([], Map.empty) = Inr (pcs', cs', used')"
    and d: "\<lparr>Conflict.port = PortConfig.port (port_configs self ! j),
              services = [PortConfig.service (port_configs self ! i),
                          PortConfig.service (port_configs self ! j)],
              conflict_type = ''port_already_used''\<rparr> \<in> set cs'"
    by blast
  from c have "scan_port_conflicts (mock_probe busy) self
      = Inr (self\<lparr>port_configs := pcs', conflicts := cs'\<rparr>)"
    by (simp add: scan_port_conflicts_def)
  with a b d show ?thesis by auto
qed

text \<open>The same at the registry of three entries, with port 8050 busy.\<close>

theorem later_duplicates_recorded_witness:
  "(\<exists>pre cs used_ports.
      scan_loop (mock_probe (\<lambda>p. p = 8050)) (take 2 (port_configs three_entries)) ([], Map.empty)
        = Inr (pre, cs, used_ports)
      \<and> used_ports 8050 = Some ''svcA'')
   \<and> (\<exists>self'. scan_port_conflicts (mock_probe (\<lambda>p. p = 8050)) three_entries = Inr self'
      \<and> \<lparr>Conflict.port = 8050, services = [''svcA'', ''svcB''],
          conflict_type = ''port_already_used''\<rparr> \<in> set (conflicts self'))"
  using later_duplicates_recorded [of 2 three_entries 0 "\<lambda>p. p = 8050"]
  by (simp add: three_entries_def new_PortConfig_def)


text \<open>
  C1, as the code has it. For a registry in which an entry \<open>j\<close> shares its port with an
  earlier entry \<open>i\<close>, the first on that port, one pass records the pair of their
  services with type \<^verbatim>\<open>port_already_used\<close> when the probe of the port fails; when the
  probe succeeds the pass records nothing for that port.
\<close>

theorem duplicate_recorded_iff_busy:
  assumes "j < length (port_configs self)" and "i < j"
    and "PortConfig.port (port_configs self ! i) = PortConfig.port (port_configs self ! j)"
    and "\<forall>k<i. PortConfig.port (port_configs self ! k) \<noteq> PortConfig.port (port_configs self ! j)"
  shows "\<exists>self'. scan_port_conflicts (mock_probe busy) self = Inr self'
           \<and> (if busy (PortConfig.port (port_configs self ! j))
               then \<lparr>Conflict.port = PortConfig.port (port_configs self ! j),
                      services = [PortConfig.service (port_configs self ! i),
                                  PortConfig.service (port_configs self ! j)],
                      conflict_type = ''port_already_used''\<rparr> \<in> set (conflicts self')
               else list_all (\<lambda>c. Conflict.port c \<noteq> PortConfig.port (port_configs self ! j))
                      (conflicts self'))"
proof -
  let ?pcs = "port_configs self"
  let ?p = "PortConfig.port (?pcs ! j)"
  obtain acc where "scan_loop (mock_probe busy) ?pcs ([], Map.empty) = Inr (map (scanned busy) ?pcs, acc)"
    using scan_loop_mock_entries by blast
  then obtain cs used where
    s: "scan_loop (mock_probe busy) ?pcs ([], Map.empty) = Inr (map (scanned busy) ?pcs, cs, used)"
    by (cases acc) auto
  then have r: "scan_port_conflicts (mock_probe busy) self
      = Inr (self\<lparr>port_configs := map (scanned busy) ?pcs, conflicts := cs\<rparr>)"
    by (simp add: scan_port_conflicts_def)
  show ?thesis
  proof (cases "busy ?p")
    case True
    from scan_loop_mock_pair [where busy = busy, OF assms True] s
    have "\<lparr>Conflict.port = ?p,
            services = [PortConfig.service (?pcs ! i), PortConfig.service (?pcs ! j)],
            conflict_type = ''port_already_used''\<rparr> \<in> set cs"
      by auto
    with r True show ?thesis by simp
  next
    case False
    have "Conflict.port c \<noteq> ?p" if "c \<in> set cs" for c
      using scan_loop_mock_busy_records [OF s that] False by auto
    then have "list_all (\<lambda>c. Conflict.port c \<noteq> ?p) cs"
      by (simp add: list_all_iff)
    with r False show ?thesis by simp
  qed
qed

text \<open>The same at the registry of svcA and svcB on port 8050, with that port busy.\<close>

theorem duplicate_recorded_iff_busy_witness:
  "\<exists>self'. scan_port_conflicts (mock_probe (\<lambda>p. p = 8050)) duplicate_registry = Inr self'
      \<and> \<lparr>Conflict.port = 8050, services = [''svcA'', ''svcB''],
          conflict_type = ''port_already_used''\<rparr> \<in> set (conflicts self')"
  using duplicate_recorded_iff_busy [of 1 duplicate_registry 0 "\<lambda>p. p = 8050"]
  by (simp add: duplicate_registry_def new_PortConfig_def)


text \<open>
  C1 as stated fails: with svcA and svcB both on port 8050 and every bind succeeding,
  the pass returns with no record at all, and both entries are \<^verbatim>\<open>available\<close>.
\<close>

theorem free_port_hides_duplicate:
  "\<exists>self'. scan_port_conflicts (check_port_availability (\<lambda>p. None)) duplicate_registry = Inr self'
      \<and> conflicts self' = []
      \<and> map PortConfig.status (port_configs self') = [''available'', ''available'']"
  by (simp add: check_port_availability_def duplicate_registry_def
        scan_port_conflicts_def scan_entry_def new_PortConfig_def)

text \<open>
  C2, as the code has it. Whatever the reason an \<^verbatim>\<open>OSError\<close> gives, the probe answers
  \<^verbatim>\<open>False\<close>: on a machine where the bind of every registered port either succeeds or
  raises an \<^verbatim>\<open>OSError\<close>, the pass returns normally and an entry has status
  \<^verbatim>\<open>available\<close> when its bind succeeded and \<^verbatim>\<open>conflict\<close> when it raised, for any reason;
  the probe of each registered port answers \<^verbatim>\<open>True\<close> when the bind succeeded and
  \<^verbatim>\<open>False\<close> when it raised.
\<close>

theorem os_errors_read_as_conflict:
  assumes "\<forall>pc\<in>set (port_configs self). \<forall>x.
             bind_attempt (PortConfig.port pc) = Some x \<longrightarrow> (\<exists>e. x = OSError e)"
  shows "\<exists>self'. scan_port_conflicts (check_port_availability bind_attempt) self = Inr self'
           \<and> port_configs self'
               = map (\<lambda>pc. pc\<lparr>PortConfig.status :=
                         (if bind_attempt (PortConfig.port pc) = None then ''available''
                          else ''conflict'')\<rparr>) (port_configs self)
           \<and> list_all (\<lambda>pc. check_port_availability bind_attempt (PortConfig.port pc)
                               = Inr (bind_attempt (PortConfig.port pc) = None))
                (port_configs self)"
proof -
  let ?busy = "\<lambda>p. bind_attempt p \<noteq> None"
  have probe: "check_port_availability bind_attempt (PortConfig.port pc)
                 = Inr (bind_attempt (PortConfig.port pc) = None)"
    if "pc \<in> set (port_configs self)" for pc
  proof -
    have "check_port_availability bind_attempt (PortConfig.port pc)
            = mock_probe ?busy (PortConfig.port pc)"
      using assms that by (intro check_port_availability_mock) blast
    then show ?thesis by (simp add: mock_probe_def)
  qed
  have "scan_port_conflicts (check_port_availability bind_attempt) self
      = scan_port_conflicts (mock_probe ?busy) self"
    using assms by (intro scan_port_conflicts_cong check_port_availability_mock) blast
  moreover obtain cs where
    "scan_port_conflicts (mock_probe ?busy) self =
       Inr (self\<lparr>port_configs := map (scanned ?busy) (port_configs self), conflicts := cs\<rparr>)"
    using scan_port_conflicts_mock_entries by blast
  moreover have "scanned ?busy = (\<lambda>pc. pc\<lparr>PortConfig.status :=
                         (if bind_attempt (PortConfig.port pc) = None then ''available''
                          else ''conflict'')\<rparr>)"
    by (auto simp: scanned_def fun_eq_iff)
  moreover have "list_all (\<lambda>pc. check_port_availability bind_attempt (PortConfig.port pc)
                               = Inr (bind_attempt (PortConfig.port pc) = None))
                (port_configs self)"
    using probe by (simp add: list_all_iff)
  ultimately show ?thesis by simp
qed

text \<open>The same on the machine that refuses port 80 for lack of permission.\<close>

theorem os_errors_read_as_conflict_witness:
  "\<exists>self'. scan_port_conflicts (check_port_availability permission_denied_on_80) privileged_registry
        = Inr self'
     \<and> map PortConfig.status (port_configs self') = [''conflict'']
     \<and> check_port_availability permission_denied_on_80 80 = Inr False"
proof -
  have "\<forall>pc\<in>set (port_configs privileged_registry). \<forall>x.
          permission_denied_on_80 (PortConfig.port pc) = Some x \<longrightarrow> (\<exists>e. x = OSError e)"
    by (auto simp: privileged_registry_def permission_denied_on_80_def split: if_splits)
  moreover have "permission_denied_on_80 80 = Some (OSError EACCES)"
    by (simp add: permission_denied_on_80_def)
  ultimately show ?thesis
    using os_errors_read_as_conflict [of privileged_registry permission_denied_on_80]
    by (auto simp: privileged_registry_def new_PortConfig_def)
qed

text \<open>
  C2 as stated fails: when the bind of port 80 raises \<^verbatim>\<open>OSError\<close> with \<^verbatim>\<open>EACCES\<close>, the
  probe answers \<^verbatim>\<open>False\<close> and the pass returns normally with the entry marked
  \<^verbatim>\<open>conflict\<close>; no error is reported.
\<close>

theorem permission_denied_read_as_conflict:
  "check_port_availability permission_denied_on_80 80 = Inr False
   \<and> scan_port_conflicts (check_port_availability permission_denied_on_80) privileged_registry
       = Inr \<lparr>port_configs =
                [\<lparr>port = 80, service = ''web'', component = ''apis'', protocol = ''http'',
                  description = ''Web Server'', status = ''conflict'', container = None,
                  health_check = None\<rparr>],
              service_ports = [], conflicts = [], port_ranges = []\<rparr>"
  by (simp add: check_port_availability_def permission_denied_on_80_def privileged_registry_def
        scan_port_conflicts_def scan_entry_def new_PortConfig_def)


section \<open>Properties of the registry\<close>

lemma foldl_snoc_map: "foldl (\<lambda>acc x. acc @ [f x]) a xs = a @ map f xs"
  by (induction xs arbitrary: a) simp_all

lemma generate_frontend_ports_map:
  "generate_frontend_ports range_start n = map (frontend_project range_start) [1..n]"
  by (simp add: generate_frontend_ports_def py_range_def foldl_snoc_map)

lemma map_add_upto: "map (\<lambda>i. k + i) [i..j] = [k + i..k + j]"
proof (induction i j rule: upto.induct)
  case (1 i j)
  show ?case
  proof (cases "i \<le> j")
    case True
    then have "[i..j] = i # [i + 1..j]" and "[k + i..k + j] = (k + i) # [k + i + 1..k + j]"
      by (simp_all add: upto_rec1)
    with 1 True show ?thesis by (simp add: add.assoc)
  next
    case False
    then show ?thesis by simp
  qed
qed

lemma port_frontend_project: "PortConfig.port (frontend_project range_start i) = range_start + i"
  by (simp add: frontend_project_def new_PortConfig_def)

lemma ports_generate_frontend_ports:
  "map PortConfig.port (generate_frontend_ports range_start n) = [range_start + 1..range_start + n]"
proof -
  have "PortConfig.port \<circ> frontend_project range_start = (\<lambda>i. range_start + i)"
    by (simp add: fun_eq_iff port_frontend_project)
  then show ?thesis
    by (simp add: generate_frontend_ports_map map_add_upto)
qed

lemma frontend_project_examples:
  "frontend_project 3000 7 =
     new_PortConfig 3007 ''frontend-project-07'' ''frontend'' ''http'' ''Frontend Project 7''"
  "frontend_project 3000 26 =
     new_PortConfig 3026 ''frontend-project-26'' ''frontend'' ''http'' ''Frontend Project 26''"
  by (simp_all add: frontend_project_def format_02d_def str_int_def digits.simps digit_char_def)

text \<open>
  C7. The block-generation rule, for any start of the range and any number \<open>n\<close> of
  projects, produces exactly \<open>n\<close> entries whose ports are, in order, the contiguous
  range from \<open>range_start + 1\<close> to \<open>range_start + n\<close>, with no gap and no duplicate;
  the block of the source is the 26 ports from 3001 to 3026.
\<close>

theorem frontend_block_contiguous:
  "map PortConfig.port (generate_frontend_ports range_start n) = [range_start + 1..range_start + n]
   \<and> length (generate_frontend_ports range_start n) = nat n
   \<and> distinct (map PortConfig.port (generate_frontend_ports range_start n))
   \<and> set (map PortConfig.port (generate_frontend_ports range_start n))
        = {range_start + 1..range_start + n}
   \<and> map PortConfig.port frontend_ports = [3001..3026]
   \<and> length frontend_ports = 26"
proof -
  have "length (generate_frontend_ports range_start n) = nat n"
    by (simp add: generate_frontend_ports_map)
  moreover have "length frontend_ports = 26"
    by (simp add: frontend_ports_def generate_frontend_ports_map)
  moreover have "map PortConfig.port frontend_ports = [3001..3026]"
    unfolding frontend_ports_def ports_generate_frontend_ports by simp
  ultimately show ?thesis
    unfolding ports_generate_frontend_ports by simp
qed

lemma literal_ports:
  "map PortConfig.port iza_os_ports = [8001, 8002, 8003, 8004, 8005, 8006, 8007]"
  "map PortConfig.port genixbank_ports = [8101, 8102, 8103, 8104, 8105, 8106, 8107, 8108]"
  "map PortConfig.port traycer_ports = [8201, 8202, 8203, 8204, 8205]"
  "map PortConfig.port mcp_ports = [8301, 8302, 8303, 8304, 8305, 8306]"
  "map PortConfig.port database_ports = [5001, 5002, 5003, 5004, 5005, 5006]"
  "map PortConfig.port api_ports = [4001, 4002, 4003, 4004, 4005, 4006, 4007]"
  "map PortConfig.port monitoring_ports = [9001, 9002, 9003, 9004, 9005, 9006]"
  by (simp_all add: iza_os_ports_def genixbank_ports_def traycer_ports_def mcp_ports_def
        database_ports_def api_ports_def monitoring_ports_def new_PortConfig_def)

lemma port_configs_register_groups:
  "port_configs (register_groups a b c d e f g h self) = a @ b @ c @ d @ e @ f @ g @ h"
  by (simp add: register_groups_def)

lemma port_configs_new:
  "port_configs new_DockerPortConfiguration =
     iza_os_ports @ genixbank_ports @ traycer_ports @ mcp_ports @ frontend_ports @
     database_ports @ api_ports @ monitoring_ports"
  by (simp add: new_DockerPortConfiguration_def initialize_port_configurations_def
        port_configs_register_groups)

lemma frontend_ports_ports: "map PortConfig.port frontend_ports = [3001..3026]"
  unfolding frontend_ports_def ports_generate_frontend_ports by simp

lemma distinct_registry_ports:
  "distinct (map PortConfig.port (port_configs new_DockerPortConfiguration))"
  unfolding port_configs_new map_append literal_ports frontend_ports_ports
  by (simp del: upto_rec_numeral)

text \<open>
  C3, as the code has it. The build compares no ports and cannot fail: whatever the eight
  tables hold, the registry is their concatenation and the list of conflicts is left as it
  was. The tables written in the source hold 71 entries with pairwise different ports.
\<close>

theorem registry_built_unchecked:
  "port_configs (register_groups a b c d e f g h self) = a @ b @ c @ d @ e @ f @ g @ h
   \<and> conflicts (register_groups a b c d e f g h self) = conflicts self
   \<and> distinct (map PortConfig.port (port_configs new_DockerPortConfiguration))
   \<and> length (port_configs new_DockerPortConfiguration) = 71
   \<and> conflicts new_DockerPortConfiguration = []"
proof -
  have "conflicts (register_groups a b c d e f g h self) = conflicts self"
    by (simp add: register_groups_def)
  moreover have "conflicts new_DockerPortConfiguration = []"
    by (simp add: new_DockerPortConfiguration_def initialize_port_configurations_def
          register_groups_def)
  moreover have "length (port_configs new_DockerPortConfiguration) = 71"
    using arg_cong [OF port_configs_new, of "\<lambda>xs. length (map PortConfig.port xs)"]
    unfolding map_append literal_ports frontend_ports_ports by simp
  ultimately show ?thesis
    using port_configs_register_groups distinct_registry_ports by simp
qed

text \<open>
  C3 as stated fails: from tables in which svcA and svcB are both on port 8050 the build
  returns a registry holding both entries, and flags nothing.
\<close>

theorem duplicate_table_built_silently:
  "port_configs
     (register_groups
        [new_PortConfig 8050 ''svcA'' ''iza_os'' ''http'' ''Service A'']
        [new_PortConfig 8050 ''svcB'' ''genixbank'' ''http'' ''Service B''] [] [] [] [] [] []
        \<lparr>port_configs = [], service_ports = [], conflicts = [], port_ranges = []\<rparr>)
     = [new_PortConfig 8050 ''svcA'' ''iza_os'' ''http'' ''Service A'',
        new_PortConfig 8050 ''svcB'' ''genixbank'' ''http'' ''Service B'']
   \<and> conflicts
     (register_groups
        [new_PortConfig 8050 ''svcA'' ''iza_os'' ''http'' ''Service A'']
        [new_PortConfig 8050 ''svcB'' ''genixbank'' ''http'' ''Service B''] [] [] [] [] [] []
        \<lparr>port_configs = [], service_ports = [], conflicts = [], port_ranges = []\<rparr>)
     = []"
  by (simp add: register_groups_def)


section \<open>Properties of the report\<close>

subsection \<open>Rounding to a double\<close>

lemma round_half_even_error: "\<bar>of_int (round_half_even y) - y\<bar> \<le> 1 / 2"
  unfolding round_half_even_def Let_def by (auto simp: abs_if) linarith+

lemma powr_powi: "(2::real) powr (of_int k) = 2 powi k"
  by (simp add: powr_real_of_int')

lemma floor_log2_bounds:
  assumes "0 < x"
  shows "2 powi \<lfloor>log 2 x\<rfloor> \<le> x" and "x < 2 powi (\<lfloor>log 2 x\<rfloor> + 1)"
  using floor_log_eq_powr_iff [of x 2 "\<lfloor>log 2 x\<rfloor>"] assms
  unfolding powr_powi by simp_all

lemma floor_log2_eq:
  assumes "2 powi e \<le> x" "x < 2 powi (e + 1)"
  shows "\<lfloor>log 2 x\<rfloor> = e"
proof -
  have "0 < (2::real) powi e" by simp
  with assms(1) have "0 < x" by linarith
  then show ?thesis
    using assms floor_log_eq_powr_iff [of x 2 e] unfolding powr_powi by simp
qed

text \<open>The value of \<open>float_round\<close> once the binary exponent of the argument is known.\<close>

lemma float_round_eval:
  assumes "2 powi e \<le> \<bar>x\<bar>" "\<bar>x\<bar> < 2 powi (e + 1)" "- 1022 \<le> e"
  shows "float_round x = of_int (round_half_even (x / 2 powi (e - 52))) * 2 powi (e - 52)"
proof -
  have "0 < (2::real) powi e" by simp
  with assms(1) have "0 < \<bar>x\<bar>" by linarith
  then have "x \<noteq> 0" by simp
  moreover have "\<lfloor>log 2 \<bar>x\<bar>\<rfloor> = e" using assms(1,2) by (rule floor_log2_eq)
  ultimately show ?thesis
    using assms(3) unfolding float_round_def Let_def by simp
qed

text \<open>In the normal range a rounding moves a number by at most the fraction \<open>2\<^sup>-\<^sup>5\<^sup>3\<close> of it.\<close>

lemma float_round_error:
  assumes "2 powi (- 1022) \<le> \<bar>x\<bar>"
  shows "\<bar>float_round x - x\<bar> \<le> \<bar>x\<bar> / 2 ^ 53"
proof -
  define e where "e = \<lfloor>log 2 \<bar>x\<bar>\<rfloor>"
  define u :: real where "u = 2 powi (e - 52)"
  have "0 < (2::real) powi (- 1022)" by simp
  with assms have pos: "0 < \<bar>x\<bar>" by linarith
  then have nz: "x \<noteq> 0" by simp
  have lo: "2 powi e \<le> \<bar>x\<bar>" and hi: "\<bar>x\<bar> < 2 powi (e + 1)"
    unfolding e_def using floor_log2_bounds [OF pos] by simp_all
  have "- 1022 \<le> e"
  proof (rule ccontr)
    assume "\<not> - 1022 \<le> e"
    then have "e + 1 \<le> - 1022" by simp
    then have "(2::real) powi (e + 1) \<le> 2 powi (- 1022)"
      by (intro power_int_increasing) simp_all
    with hi assms show False by linarith
  qed
  then have "max \<lfloor>log 2 \<bar>x\<bar>\<rfloor> (- 1022) = e"
    by (simp add: e_def)
  then have fr: "float_round x = of_int (round_half_even (x / u)) * u"
    unfolding float_round_def Let_def u_def using nz by simp
  have upos: "0 < u" by (simp add: u_def)
  have "float_round x - x = (of_int (round_half_even (x / u)) - x / u) * u"
    using upos by (simp add: fr field_simps)
  then have "\<bar>float_round x - x\<bar> = \<bar>of_int (round_half_even (x / u)) - x / u\<bar> * u"
    using upos by (simp add: abs_mult)
  also have "\<dots> \<le> 1 / 2 * u"
    using round_half_even_error [of "x / u"] upos by (intro mult_right_mono) simp_all
  also have "1 / 2 * u = 2 powi e / 2 ^ 53"
    by (simp add: u_def power_int_diff)
  also have "\<dots> \<le> \<bar>x\<bar> / 2 ^ 53"
    using lo by (simp add: divide_right_mono)
  finally show ?thesis .
qed

subsection \<open>The percentage\<close>

lemma percentage_value:
  "percentage a t =
     Inr (if t = 0 then PyInt 0 else PyFloat (float_round (float_round (real a / real t) * 100)))"
  by (simp add: percentage_def truediv_def)

text \<open>
  Two values of the percentage: 7 of 25 gives the double that Python prints as
  \<^verbatim>\<open>28.000000000000004\<close>, and 1 of 3 the one it prints as \<^verbatim>\<open>33.33333333333333\<close>.
\<close>

lemma percentage_examples:
  "percentage 7 25 = Inr (PyFloat (7881299347898369 / 2 ^ 48))"
  "percentage 1 3 = Inr (PyFloat (2345624805922133 / 2 ^ 46))"
proof -
  have a: "float_round (7 / 25) = 1261007895663739 / 2 ^ 52"
    by (subst float_round_eval [where e = "- 2"])
       (simp_all add: round_half_even_def Let_def power_int_minus)
  have b: "float_round (1261007895663739 / 2 ^ 52 * 100) = 7881299347898369 / 2 ^ 48"
    by (subst float_round_eval [where e = 4])
       (simp_all add: round_half_even_def Let_def power_int_minus)
  have "float_round (float_round (7 / 25) * 100) = 7881299347898369 / 2 ^ 48"
    unfolding a by (rule b)
  then show "percentage 7 25 = Inr (PyFloat (7881299347898369 / 2 ^ 48))"
    by (simp add: percentage_value)
  have c: "float_round (1 / 3) = 6004799503160661 / 2 ^ 54"
    by (subst float_round_eval [where e = "- 2"])
       (simp_all add: round_half_even_def Let_def power_int_minus)
  have d: "float_round (6004799503160661 / 2 ^ 54 * 100) = 2345624805922133 / 2 ^ 46"
    by (subst float_round_eval [where e = 5])
       (simp_all add: round_half_even_def Let_def power_int_minus)
  have "float_round (float_round (1 / 3) * 100) = 2345624805922133 / 2 ^ 46"
    unfolding c by (rule d)
  then show "percentage 1 3 = Inr (PyFloat (2345624805922133 / 2 ^ 46))"
    by (simp add: percentage_value)
qed

text \<open>
  The two roundings together move the percentage by at most three times the fraction
  \<open>2\<^sup>-\<^sup>5\<^sup>3\<close> of its exact value, for a registry of fewer than \<open>2\<^sup>6\<^sup>3\<close> entries (the
  largest length of a Python list).
\<close>

lemma percentage_error:
  assumes "0 < t" and "t < 2 ^ 63"
  shows "\<bar>float_round (float_round (real a / real t) * 100) - real a / real t * 100\<bar>
           \<le> real a / real t * 100 * 3 / 2 ^ 53"
proof (cases "a = 0")
  case True
  then show ?thesis by (simp add: float_round_def)
next
  case False
  define q where "q = real a / real t"
  define q' where "q' = float_round q"
  define p' where "p' = float_round (q' * 100)"
  define eps :: real where "eps = 1 / 2 ^ 53"
  have eps: "0 < eps" "eps \<le> 1 / 2" by (simp_all add: eps_def)
  have "real t \<le> 2 ^ 63" using assms(2) by (metis less_imp_le of_nat_le_iff of_nat_numeral of_nat_power)
  moreover have "1 \<le> real a" using False by simp
  ultimately have "1 / 2 ^ 63 \<le> q"
    unfolding q_def using assms(1) by (intro frac_le) simp_all
  then have qlow: "2 powi (- 63) \<le> q" by (simp add: power_int_minus field_simps)
  then have qpos: "0 < q" using zero_less_power_int [of "2::real" "- 63"] by linarith
  have "(2::real) powi (- 1022) \<le> 2 powi (- 63)"
    by (intro power_int_increasing) simp_all
  with qlow qpos have "2 powi (- 1022) \<le> \<bar>q\<bar>" by simp
  from float_round_error [OF this] qpos have e1: "\<bar>q' - q\<bar> \<le> q * eps"
    by (simp add: q'_def eps_def)
  then have q'up: "q' \<le> q * (1 + eps)" and q'low: "q * (1 - eps) \<le> q'"
    by (simp_all add: algebra_simps abs_le_iff)
  have "q * eps \<le> q * (1 / 2)" using qpos eps(2) by (intro mult_left_mono) simp_all
  then have "q / 2 \<le> q * (1 - eps)" by (simp add: algebra_simps)
  with q'low have half: "q / 2 \<le> q'" by linarith
  with qpos have q'pos: "0 < q'" by linarith
  have "(2::real) powi (- 1022) \<le> 2 powi (- 63)"
    by (intro power_int_increasing) simp_all
  also have "\<dots> \<le> q" by (rule qlow)
  also have "\<dots> \<le> q' * 100" using half qpos by linarith
  finally have "2 powi (- 1022) \<le> \<bar>q' * 100\<bar>" using q'pos by simp
  from float_round_error [OF this] q'pos have e2: "\<bar>p' - q' * 100\<bar> \<le> q' * 100 * eps"
    by (simp add: p'_def eps_def)
  have "q' * 100 * eps \<le> q * (1 + eps) * 100 * eps"
    using q'up eps(1) by (simp add: mult_right_mono)
  with e2 have e3: "\<bar>p' - q' * 100\<bar> \<le> q * (1 + eps) * 100 * eps" by linarith
  have "\<bar>p' - q * 100\<bar> = \<bar>(p' - q' * 100) + 100 * (q' - q)\<bar>"
    by (simp add: algebra_simps)
  also have "\<dots> \<le> \<bar>p' - q' * 100\<bar> + \<bar>100 * (q' - q)\<bar>"
    by (rule abs_triangle_ineq)
  also have "\<dots> = \<bar>p' - q' * 100\<bar> + 100 * \<bar>q' - q\<bar>"
    unfolding abs_mult by simp
  also have "\<dots> \<le> q * (1 + eps) * 100 * eps + 100 * (q * eps)"
    by (rule add_mono [OF e3 mult_left_mono [OF e1]]) simp
  also have "\<dots> = q * 100 * eps * (2 + eps)" by (simp add: algebra_simps)
  also have "\<dots> \<le> q * 100 * eps * 3"
    using qpos eps by (intro mult_left_mono) simp_all
  finally show ?thesis
    by (simp add: p'_def q'_def q_def eps_def)
qed

subsection \<open>The report as a value\<close>

lemma update_absent: "map_of al k = None \<Longrightarrow> AList.update k v al = al @ [(k, v)]"
  by (induction al) (auto split: if_splits)

lemma add_component_port_keys:
  "distinct (map fst al) \<Longrightarrow> distinct (map fst (add_component_port al pc))"
  by (simp add: add_component_port_def Let_def distinct_update distinct_map_entry)

lemma sum_map_entry:
  "map_of al k \<noteq> None \<Longrightarrow>
     sum_list (map (\<lambda>(c, es). length es) (AList.map_entry k (\<lambda>es. es @ [e]) al))
       = Suc (sum_list (map (\<lambda>(c, es). length es) al))"
  by (induction al) (auto split: if_splits)

lemma add_component_port_sum:
  "sum_list (map (\<lambda>(c, es). length es) (add_component_port al pc))
     = Suc (sum_list (map (\<lambda>(c, es). length es) al))"
proof (cases "map_of al (PortConfig.component pc)")
  case None
  then have "AList.update (PortConfig.component pc) [] al = al @ [(PortConfig.component pc, [])]"
    by (rule update_absent)
  moreover have "map_of (al @ [(PortConfig.component pc, [])]) (PortConfig.component pc) \<noteq> None"
    by (simp add: map_add_def split: option.splits)
  ultimately show ?thesis
    using None by (simp add: add_component_port_def sum_map_entry)
next
  case (Some es)
  then show ?thesis
    by (simp add: add_component_port_def sum_map_entry)
qed

lemma foldl_add_component_port:
  "distinct (map fst al) \<Longrightarrow>
     distinct (map fst (foldl add_component_port al pcs))
     \<and> sum_list (map (\<lambda>(c, es). length es) (foldl add_component_port al pcs))
         = sum_list (map (\<lambda>(c, es). length es) al) + length pcs"
  by (induction pcs arbitrary: al) (simp_all add: add_component_port_keys add_component_port_sum)

lemma report_value:
  "\<exists>r. generate_port_mapping_report self = Inr r
     \<and> total_ports (port_mapping_summary r) = length (port_configs self)
     \<and> available_ports (port_mapping_summary r)
         = length (filter (\<lambda>p. PortConfig.status p = ''available'') (port_configs self))
     \<and> conflict_ports (port_mapping_summary r)
         = length (filter (\<lambda>p. PortConfig.status p = ''conflict'') (port_configs self))
     \<and> availability_percentage (port_mapping_summary r)
         = (if port_configs self = [] then PyInt 0
            else PyFloat (float_round
                   (float_round (real (length (filter (\<lambda>p. PortConfig.status p = ''available'')
                                                 (port_configs self)))
                                 / real (length (port_configs self))) * 100)))
     \<and> component_ports r = foldl add_component_port [] (port_configs self)"
  by (simp add: generate_port_mapping_report_def percentage_value Let_def)

text \<open>
  C9. For every registry, the report is produced and its \<^verbatim>\<open>total_ports\<close> is the sum of
  the lengths of the lists of \<^verbatim>\<open>component_ports\<close>, whose keys are pairwise different.
\<close>

theorem total_ports_is_sum_of_component_lists:
  "\<exists>r. generate_port_mapping_report self = Inr r
     \<and> total_ports (port_mapping_summary r)
         = sum_list (map (\<lambda>(c, es). length es) (component_ports r))
     \<and> distinct (map fst (component_ports r))"
proof -
  from report_value obtain r where
    "generate_port_mapping_report self = Inr r"
    "total_ports (port_mapping_summary r) = length (port_configs self)"
    "component_ports r = foldl add_component_port [] (port_configs self)"
    by blast
  with foldl_add_component_port [of "[]" "port_configs self"] show ?thesis
    by simp
qed

text \<open>
  C6. For every registry, the report is produced (no division fault), and its
  \<^verbatim>\<open>availability_percentage\<close> is the integer 0 when \<^verbatim>\<open>total_ports\<close> is 0 and
  otherwise the float that \<^verbatim>\<open>available_ports / total_ports * 100\<close> gives in double
  arithmetic: the quotient rounded to a double, times 100, rounded again. For a registry
  of fewer than \<open>2\<^sup>6\<^sup>3\<close> entries this float differs from the exact value of
  \<^verbatim>\<open>available_ports / total_ports * 100\<close> by at most \<open>3 / 2\<^sup>5\<^sup>3\<close> of that value.
\<close>

theorem availability_percentage_guarded:
  "\<exists>r. generate_port_mapping_report self = Inr r
     \<and> total_ports (port_mapping_summary r) = length (port_configs self)
     \<and> available_ports (port_mapping_summary r)
         = length (filter (\<lambda>p. PortConfig.status p = ''available'') (port_configs self))
     \<and> availability_percentage (port_mapping_summary r)
         = (if total_ports (port_mapping_summary r) = 0 then PyInt 0
            else PyFloat (float_round
                   (float_round (real (available_ports (port_mapping_summary r))
                                 / real (total_ports (port_mapping_summary r))) * 100)))
     \<and> (0 < total_ports (port_mapping_summary r) \<and> total_ports (port_mapping_summary r) < 2 ^ 63
        \<longrightarrow> (\<exists>v. availability_percentage (port_mapping_summary r) = PyFloat v
               \<and> \<bar>v - real (available_ports (port_mapping_summary r))
                        / real (total_ports (port_mapping_summary r)) * 100\<bar>
                   \<le> real (available_ports (port_mapping_summary r))
                        / real (total_ports (port_mapping_summary r)) * 100 * 3 / 2 ^ 53))"
proof -
  from report_value obtain r where r:
    "generate_port_mapping_report self = Inr r"
    "total_ports (port_mapping_summary r) = length (port_configs self)"
    "available_ports (port_mapping_summary r)
         = length (filter (\<lambda>p. PortConfig.status p = ''available'') (port_configs self))"
    "availability_percentage (port_mapping_summary r)
         = (if port_configs self = [] then PyInt 0
            else PyFloat (float_round
                   (float_round (real (length (filter (\<lambda>p. PortConfig.status p = ''available'')
                                                 (port_configs self)))
                                 / real (length (port_configs self))) * 100)))"
    by blast
  then have v: "availability_percentage (port_mapping_summary r)
         = (if total_ports (port_mapping_summary r) = 0 then PyInt 0
            else PyFloat (float_round
                   (float_round (real (available_ports (port_mapping_summary r))
                                 / real (total_ports (port_mapping_summary r))) * 100)))"
    by auto
  have b: "\<exists>v. availability_percentage (port_mapping_summary r) = PyFloat v
               \<and> \<bar>v - real (available_ports (port_mapping_summary r))
                        / real (total_ports (port_mapping_summary r)) * 100\<bar>
                   \<le> real (available_ports (port_mapping_summary r))
                        / real (total_ports (port_mapping_summary r)) * 100 * 3 / 2 ^ 53"
    if "0 < total_ports (port_mapping_summary r)" "total_ports (port_mapping_summary r) < 2 ^ 63"
    using percentage_error [OF that, of "available_ports (port_mapping_summary r)"] v that(1)
    by simp
  show ?thesis
  proof (rule exI [of _ r], intro conjI impI)
    show "generate_port_mapping_report self = Inr r" by (rule r(1))
    show "total_ports (port_mapping_summary r) = length (port_configs self)" by (rule r(2))
    show "available_ports (port_mapping_summary r)
         = length (filter (\<lambda>p. PortConfig.status p = ''available'') (port_configs self))"
      by (rule r(3))
    show "availability_percentage (port_mapping_summary r)
         = (if total_ports (port_mapping_summary r) = 0 then PyInt 0
            else PyFloat (float_round
                   (float_round (real (available_ports (port_mapping_summary r))
                                 / real (total_ports (port_mapping_summary r))) * 100)))"
      by (rule v)
    show "\<exists>v. availability_percentage (port_mapping_summary r) = PyFloat v
               \<and> \<bar>v - real (available_ports (port_mapping_summary r))
                        / real (total_ports (port_mapping_summary r)) * 100\<bar>
                   \<le> real (available_ports (port_mapping_summary r))
                        / real (total_ports (port_mapping_summary r)) * 100 * 3 / 2 ^ 53"
      if "0 < total_ports (port_mapping_summary r)
          \<and> total_ports (port_mapping_summary r) < 2 ^ 63"
      using that b by blast
  qed
qed

text \<open>
  The same for the registry of three entries of which one is available: the percentage
  is the double that Python prints as \<^verbatim>\<open>33.33333333333333\<close>.
\<close>

theorem availability_percentage_guarded_witness:
  "\<exists>r. generate_port_mapping_report three_entries_scanned = Inr r
     \<and> total_ports (port_mapping_summary r) = 3
     \<and> available_ports (port_mapping_summary r) = 1
     \<and> availability_percentage (port_mapping_summary r) = PyFloat (2345624805922133 / 2 ^ 46)
     \<and> \<bar>2345624805922133 / 2 ^ 46 - 1 / 3 * 100\<bar> \<le> (1 / 3 * 100 * 3 / 2 ^ 53 :: real)"
proof -
  have n: "length (port_configs three_entries_scanned) = 3"
    "length (filter (\<lambda>p. PortConfig.status p = ''available'') (port_configs three_entries_scanned)) = 1"
    by (simp_all add: three_entries_scanned_def three_entries_def new_PortConfig_def scanned_def)
  have f: "float_round (float_round (1 / 3) * 100) = 2345624805922133 / 2 ^ 46"
    using percentage_examples(2) by (simp add: percentage_value)
  from availability_percentage_guarded [of three_entries_scanned] obtain r where
    "generate_port_mapping_report three_entries_scanned = Inr r"
    "total_ports (port_mapping_summary r) = 3"
    "available_ports (port_mapping_summary r) = 1"
    "availability_percentage (port_mapping_summary r)
       = PyFloat (float_round (float_round (1 / 3) * 100))"
    "\<exists>v. availability_percentage (port_mapping_summary r) = PyFloat v
        \<and> \<bar>v - 1 / 3 * 100\<bar> \<le> 1 / 3 * 100 * 3 / 2 ^ 53"
    unfolding n by auto
  then show ?thesis
    unfolding f by auto
qed

subsection \<open>The status field\<close>

lemma scan_entry_two_valued: "scan_entry a pc acc = (pc', acc') \<Longrightarrow> two_valued pc'"
  by (cases acc) (auto simp: scan_entry_def two_valued_def split: if_splits option.splits)

lemma scan_loop_two_valued:
  "scan_loop check pcs acc = Inr (pcs', acc') \<Longrightarrow> list_all two_valued pcs'"
proof (induction pcs arbitrary: acc pcs')
  case Nil
  then show ?case by simp
next
  case (Cons pc pcs)
  from Cons.prems obtain a where a: "check (PortConfig.port pc) = Inr a"
    by (auto split: sum.splits)
  obtain pc1 acc1 where e: "scan_entry a pc acc = (pc1, acc1)"
    by (cases "scan_entry a pc acc") auto
  from Cons.prems a e obtain rest' where
    r: "scan_loop check pcs acc1 = Inr (rest', acc')" and p: "pcs' = pc1 # rest'"
    by (auto split: sum.splits)
  from Cons.IH [OF r] scan_entry_two_valued [OF e] p show ?case by simp
qed

lemma scan_port_conflicts_two_valued:
  "scan_port_conflicts check self = Inr self' \<Longrightarrow> list_all two_valued (port_configs self')"
  by (auto simp: scan_port_conflicts_def split: sum.splits dest: scan_loop_two_valued)

lemma count_two_valued:
  "list_all two_valued pcs \<Longrightarrow>
     length (filter (\<lambda>p. PortConfig.status p = ''available'') pcs)
       + length (filter (\<lambda>p. PortConfig.status p = ''conflict'') pcs) = length pcs"
  by (induction pcs) (auto simp: two_valued_def)


lemma literal_available:
  "list_all (\<lambda>pc. PortConfig.status pc = ''available'') iza_os_ports"
  "list_all (\<lambda>pc. PortConfig.status pc = ''available'') genixbank_ports"
  "list_all (\<lambda>pc. PortConfig.status pc = ''available'') traycer_ports"
  "list_all (\<lambda>pc. PortConfig.status pc = ''available'') mcp_ports"
  "list_all (\<lambda>pc. PortConfig.status pc = ''available'') database_ports"
  "list_all (\<lambda>pc. PortConfig.status pc = ''available'') api_ports"
  "list_all (\<lambda>pc. PortConfig.status pc = ''available'') monitoring_ports"
  by (simp_all add: iza_os_ports_def genixbank_ports_def traycer_ports_def mcp_ports_def
        database_ports_def api_ports_def monitoring_ports_def new_PortConfig_def)

lemma frontend_available:
  "list_all (\<lambda>pc. PortConfig.status pc = ''available'') frontend_ports"
  by (simp add: frontend_ports_def generate_frontend_ports_map list_all_iff
        frontend_project_def new_PortConfig_def)

lemma initially_available:
  "list_all (\<lambda>pc. PortConfig.status pc = ''available'') (port_configs new_DockerPortConfiguration)"
  by (simp add: port_configs_new literal_available frontend_available)

lemma available_two_valued:
  "list_all (\<lambda>pc. PortConfig.status pc = ''available'') pcs \<Longrightarrow> list_all two_valued pcs"
  by (simp add: list_all_iff two_valued_def)

lemma reachable_two_valued: "reachable self \<Longrightarrow> list_all two_valued (port_configs self)"
proof (induction rule: reachable.induct)
  case constructed
  show ?case using initially_available by (rule available_two_valued)
next
  case (scanned_again self check self')
  then show ?case by (simp add: scan_port_conflicts_two_valued)
qed

text \<open>
  C10. In every state the object can reach (constructed, then scanned any number of
  times with any probe), the \<^verbatim>\<open>status\<close> of every entry is one of the two strings
  \<^verbatim>\<open>available\<close> and \<^verbatim>\<open>conflict\<close>, so the report is produced with
  \<^verbatim>\<open>available_ports + conflict_ports = total_ports\<close>, whether or not a scan came first;
  as constructed, every entry is \<^verbatim>\<open>available\<close>.
\<close>

theorem status_two_valued:
  assumes "reachable self"
  shows "list_all two_valued (port_configs self)
       \<and> (\<exists>r. generate_port_mapping_report self = Inr r
            \<and> available_ports (port_mapping_summary r) + conflict_ports (port_mapping_summary r)
                = total_ports (port_mapping_summary r))
       \<and> list_all (\<lambda>pc. PortConfig.status pc = ''available'')
            (port_configs new_DockerPortConfiguration)"
proof -
  from assms have t: "list_all two_valued (port_configs self)"
    by (rule reachable_two_valued)
  from report_value obtain r where
    "generate_port_mapping_report self = Inr r"
    "total_ports (port_mapping_summary r) = length (port_configs self)"
    "available_ports (port_mapping_summary r)
         = length (filter (\<lambda>p. PortConfig.status p = ''available'') (port_configs self))"
    "conflict_ports (port_mapping_summary r)
         = length (filter (\<lambda>p. PortConfig.status p = ''conflict'') (port_configs self))"
    by blast
  with count_two_valued [OF t] t initially_available show ?thesis
    by auto
qed

text \<open>The same for the registry of the source after one scan in which port 8001 is busy.\<close>

theorem status_two_valued_witness:
  "\<exists>self'. scan_port_conflicts (mock_probe (\<lambda>p. p = 8001)) new_DockerPortConfiguration = Inr self'
     \<and> list_all two_valued (port_configs self')
     \<and> (\<exists>r. generate_port_mapping_report self' = Inr r
          \<and> available_ports (port_mapping_summary r) + conflict_ports (port_mapping_summary r)
              = total_ports (port_mapping_summary r))"
proof -
  obtain self' where
    s: "scan_port_conflicts (mock_probe (\<lambda>p. p = 8001)) new_DockerPortConfiguration = Inr self'"
    using scan_port_conflicts_mock_entries by blast
  with reachable.constructed have "reachable self'"
    by (rule reachable.scanned_again)
  from status_two_valued [OF this] s show ?thesis
    by blast
qed


section \<open>Properties of the descriptor\<close>

lemma foldl_append_concat: "foldl (\<lambda>acc x. acc @ f x) a xs = a @ concat (map f xs)"
  by (induction xs arbitrary: a) simp_all

lemma content_blocks:
  "create_docker_compose_content grp =
     compose_header @ concat (map (service_block grp) (ports grp)) @ compose_footer grp"
  by (simp add: create_docker_compose_content_def foldl_append_concat)

lemma line_in_unlines: "l \<in> set ls \<Longrightarrow> sublist (l @ nl) (unlines ls)"
proof -
  assume "l \<in> set ls"
  then obtain as bs where "ls = as @ l # bs"
    by (auto simp: in_set_conv_decomp)
  then have "unlines ls = unlines as @ (l @ nl) @ unlines bs"
    by (simp add: unlines_def)
  then show ?thesis
    by (metis sublist_appendI)
qed

lemma service_block_lines:
  "sublist (''      - '' @ dq @ str_int (PortConfig.port pc) @ '':'' @ str_int (PortConfig.port pc)
             @ dq @ nl) (service_block grp pc)"
  "sublist (''      - PORT='' @ str_int (PortConfig.port pc) @ nl) (service_block grp pc)"
  "sublist (''      - COMPONENT='' @ ServicePorts.component grp @ nl) (service_block grp pc)"
  "sublist (''      - SERVICE='' @ PortConfig.service pc @ nl) (service_block grp pc)"
  unfolding service_block_def
  using line_in_unlines [of "''      - '' @ dq @ str_int (PortConfig.port pc) @ '':''
                              @ str_int (PortConfig.port pc) @ dq" "service_lines grp pc"]
        line_in_unlines [of "''      - PORT='' @ str_int (PortConfig.port pc)" "service_lines grp pc"]
        line_in_unlines [of "''      - COMPONENT='' @ ServicePorts.component grp" "service_lines grp pc"]
        line_in_unlines [of "''      - SERVICE='' @ PortConfig.service pc" "service_lines grp pc"]
  by (simp_all add: service_lines_def)

lemma service_block_url:
  "sublist (''http://localhost:'' @ str_int (PortConfig.port pc) @ ''/health'') (service_block grp pc)"
proof -
  let ?url = "''http://localhost:'' @ str_int (PortConfig.port pc) @ ''/health''"
  let ?line = "''      test: ['' @ dq @ ''CMD'' @ dq @ '', '' @ dq @ ''curl'' @ dq @ '', '' @ dq @ ''-f'' @ dq
                   @ '', '' @ dq @ ''http://localhost:'' @ str_int (PortConfig.port pc)
                   @ ''/health'' @ dq @ '']''"
  have "?line \<in> set (service_lines grp pc)"
    by (simp add: service_lines_def)
  then have "sublist (?line @ nl) (service_block grp pc)"
    unfolding service_block_def by (rule line_in_unlines)
  moreover have "?line @ nl =
      (''      test: ['' @ dq @ ''CMD'' @ dq @ '', '' @ dq @ ''curl'' @ dq @ '', '' @ dq @ ''-f'' @ dq
         @ '', '' @ dq) @ ?url @ (dq @ '']'' @ nl)"
    by simp
  then have "sublist ?url (?line @ nl)"
    by (metis sublist_appendI)
  ultimately show ?thesis
    by (rule sublist_order.order.trans [rotated])
qed

lemma service_block_protocol:
  "service_block grp (pc\<lparr>PortConfig.protocol := pr\<rparr>) = service_block grp pc"
  by (simp add: service_block_def service_lines_def)

subsection \<open>The lines of the document\<close>

lemma text_lines_line:
  "single_line l \<Longrightarrow> text_lines (l @ nl @ rest) = l # text_lines rest"
  by (induction l) (auto simp: single_line_def nl_def)

lemma text_lines_unlines:
  "list_all single_line ls \<Longrightarrow> text_lines (unlines ls @ rest) = ls @ text_lines rest"
  by (induction ls) (simp_all add: unlines_def text_lines_line)

lemma text_lines_blocks:
  "list_all (list_all single_line) lss \<Longrightarrow>
     text_lines (concat (map unlines lss) @ rest) = concat lss @ text_lines rest"
  by (induction lss) (simp_all add: text_lines_unlines)

lemma digit_char_not_newline: "d < 10 \<Longrightarrow> digit_char d \<noteq> CHR 0x0A"
proof -
  assume "d < 10"
  then have "d \<in> {0, 1, 2, 3, 4, 5, 6, 7, 8, 9}" by auto
  then show ?thesis by (auto simp: digit_char_def)
qed

lemma single_line_digits: "single_line (digits n)"
proof (induction n rule: digits.induct)
  case (1 n)
  show ?case
  proof (cases "n < 10")
    case True
    then show ?thesis
      using digit_char_not_newline [of n]
      by (auto simp: digits.simps [of n] single_line_def)
  next
    case False
    with 1 have "single_line (digits (n div 10))" by simp
    with False show ?thesis
      using digit_char_not_newline [of "n mod 10"]
      by (auto simp: digits.simps [of n] single_line_def)
  qed
qed

lemma single_line_str_int: "single_line (str_int i)"
  using single_line_digits [of "nat i"] single_line_digits [of "nat (- i)"]
  by (simp add: str_int_def single_line_def)

lemma single_line_replace_dash: "single_line s \<Longrightarrow> single_line (replace_dash s)"
  by (auto simp: single_line_def replace_dash_def)

lemma single_line_append [simp]: "single_line (a @ b) \<longleftrightarrow> single_line a \<and> single_line b"
  by (auto simp: single_line_def)

lemma single_line_header: "list_all single_line header_lines"
  by (simp add: header_lines_def single_line_def sq_def)

lemma single_line_footer:
  "single_line (ServicePorts.component grp) \<Longrightarrow> list_all single_line (footer_lines grp)"
  by (simp add: footer_lines_def) (simp add: single_line_def)

lemma single_line_service:
  "single_line (ServicePorts.component grp) \<Longrightarrow> single_line (PortConfig.service pc)
     \<Longrightarrow> list_all single_line (service_lines grp pc)"
  using single_line_str_int [of "PortConfig.port pc"]
    single_line_replace_dash [of "PortConfig.service pc"]
  by (simp add: service_lines_def) (simp add: single_line_def dq_def)


lemma text_lines_content:
  assumes "single_line (ServicePorts.component grp)"
    and "list_all (\<lambda>pc. single_line (PortConfig.service pc)) (ports grp)"
  shows "text_lines (create_docker_compose_content grp)
           = header_lines @ concat (map (service_lines grp) (ports grp)) @ footer_lines grp"
proof -
  have "list_all single_line (service_lines grp pc)" if "pc \<in> set (ports grp)" for pc
  proof (rule single_line_service)
    show "single_line (ServicePorts.component grp)" by (rule assms(1))
    show "single_line (PortConfig.service pc)" using that assms(2) by (simp add: list_all_iff)
  qed
  then have blocks: "list_all (list_all single_line) (map (service_lines grp) (ports grp))"
    by (simp add: list_all_iff)
  have "service_block grp = (\<lambda>pc. unlines (service_lines grp pc))"
    by (simp add: fun_eq_iff service_block_def)
  then have "create_docker_compose_content grp =
      unlines header_lines
      @ (concat (map unlines (map (service_lines grp) (ports grp))) @ (unlines (footer_lines grp) @ []))"
    by (simp add: content_blocks compose_header_def compose_footer_def comp_def)
  then show ?thesis
    using text_lines_unlines [OF single_line_header]
      text_lines_blocks [OF blocks]
      text_lines_unlines [OF single_line_footer [OF assms(1)], of "[]"]
    by simp
qed

lemma ends_differ: "ys \<noteq> [] \<Longrightarrow> last ys \<noteq> last zs \<Longrightarrow> xs @ ys \<noteq> zs"
  by auto

lemma count_restart_service:
  "count_list (service_lines grp pc) ''    restart: unless-stopped'' = 1"
proof -
  have "replace_dash (PortConfig.service pc) @ '':'' \<noteq> ''  restart: unless-stopped''"
    by (rule ends_differ) simp_all
  then show ?thesis
    by (simp add: service_lines_def dq_def)
qed

lemma count_restart_header: "count_list header_lines ''    restart: unless-stopped'' = 0"
  by (simp add: header_lines_def sq_def)

lemma count_restart_footer: "count_list (footer_lines grp) ''    restart: unless-stopped'' = 0"
proof -
  have "ServicePorts.component grp @ ''_network:'' \<noteq> ''  restart: unless-stopped''"
    and "ServicePorts.component grp @ ''_data:'' \<noteq> ''  restart: unless-stopped''"
    by (rule ends_differ; simp)+
  then show ?thesis
    by (simp add: footer_lines_def)
qed

lemma count_list_concat_map:
  "(\<And>x. count_list (f x) y = 1) \<Longrightarrow> count_list (concat (map f xs)) y = length xs"
  by (induction xs) simp_all

text \<open>
  C8. For every group, the descriptor is the header, then one service block per entry
  of the group, in order, then the footer: as many blocks as the group has entries. The
  block of an entry holds the line of the port mapping with the entry's port on both
  sides, the lines of \<^verbatim>\<open>PORT\<close> (the entry's port), \<^verbatim>\<open>COMPONENT\<close> and
  \<^verbatim>\<open>SERVICE\<close>, and the health-check URL \<^verbatim>\<open>http://localhost:<port>/health\<close>; the
  block does not depend on the protocol of the entry. When no name holds a newline, the
  lines of the document are exactly the lines of the header, of the blocks and of the
  footer, and the line \<^verbatim>\<open>restart: unless-stopped\<close>, which every block has once, occurs
  as many times as the group has entries.
\<close>

theorem descriptor_blocks:
  "create_docker_compose_content grp
     = compose_header @ concat (map (service_block grp) (ports grp)) @ compose_footer grp
   \<and> length (map (service_block grp) (ports grp)) = length (ports grp)
   \<and> sublist (''      - '' @ dq @ str_int (PortConfig.port pc) @ '':''
               @ str_int (PortConfig.port pc) @ dq @ nl) (service_block grp pc)
   \<and> sublist (''      - PORT='' @ str_int (PortConfig.port pc) @ nl) (service_block grp pc)
   \<and> sublist (''      - COMPONENT='' @ ServicePorts.component grp @ nl) (service_block grp pc)
   \<and> sublist (''      - SERVICE='' @ PortConfig.service pc @ nl) (service_block grp pc)
   \<and> sublist (''http://localhost:'' @ str_int (PortConfig.port pc) @ ''/health'')
        (service_block grp pc)
   \<and> service_block grp (pc\<lparr>PortConfig.protocol := pr\<rparr>) = service_block grp pc
   \<and> (single_line (ServicePorts.component grp)
        \<and> list_all (\<lambda>pc. single_line (PortConfig.service pc)) (ports grp)
      \<longrightarrow> text_lines (create_docker_compose_content grp)
            = header_lines @ concat (map (service_lines grp) (ports grp)) @ footer_lines grp
        \<and> count_list (text_lines (create_docker_compose_content grp))
            ''    restart: unless-stopped'' = length (ports grp))"
proof -
  have "count_list (text_lines (create_docker_compose_content grp))
            ''    restart: unless-stopped'' = length (ports grp)"
    if "text_lines (create_docker_compose_content grp)
            = header_lines @ concat (map (service_lines grp) (ports grp)) @ footer_lines grp"
    using that count_restart_header count_restart_footer [of grp]
      count_list_concat_map [of "service_lines grp" "''    restart: unless-stopped''" "ports grp",
        OF count_restart_service]
    by simp
  then show ?thesis
    using content_blocks [of grp] service_block_lines [where pc = pc and grp = grp]
      service_block_url [where pc = pc and grp = grp]
      service_block_protocol [where pc = pc and grp = grp and pr = pr] text_lines_content [of grp]
    by simp
qed

text \<open>The same for the group of the databases and its entry of port 5002.\<close>

theorem descriptor_blocks_witness:
  "count_list (text_lines (create_docker_compose_content databases_group))
     ''    restart: unless-stopped'' = 6
   \<and> sublist (''      - PORT=5002'' @ nl)
       (service_block databases_group
          (new_PortConfig 5002 ''redis-cache'' ''databases'' ''tcp'' ''Redis Cache''))
   \<and> sublist ''http://localhost:5002/health''
       (service_block databases_group
          (new_PortConfig 5002 ''redis-cache'' ''databases'' ''tcp'' ''Redis Cache''))"
proof -
  let ?redis = "new_PortConfig 5002 ''redis-cache'' ''databases'' ''tcp'' ''Redis Cache''"
  note d = descriptor_blocks [where grp = databases_group and pc = ?redis and pr = "''tcp''"]
  have "single_line (ServicePorts.component databases_group)
      \<and> list_all (\<lambda>pc. single_line (PortConfig.service pc)) (ports databases_group)"
    by (simp add: databases_group_def new_ServicePorts_def database_ports_def new_PortConfig_def
          single_line_def)
  with d have "count_list (text_lines (create_docker_compose_content databases_group))
     ''    restart: unless-stopped'' = length (ports databases_group)"
    by blast
  moreover have "length (ports databases_group) = 6"
    by (simp add: databases_group_def new_ServicePorts_def database_ports_def)
  moreover have p: "str_int (PortConfig.port ?redis) = ''5002''"
    by (simp add: new_PortConfig_def str_int_def digits.simps digit_char_def)
  moreover from d have
    "sublist (''      - PORT='' @ str_int (PortConfig.port ?redis) @ nl)
       (service_block databases_group ?redis)"
    by blast
  moreover from d have
    "sublist (''http://localhost:'' @ str_int (PortConfig.port ?redis) @ ''/health'')
       (service_block databases_group ?redis)"
    by blast
  ultimately show ?thesis
    by simp
qed


end
